theory Spec2Isabelle
  imports Complex_Main "HOL-Library.Word"
begin

unbundle bit_operations_syntax

section \<open>The DHT11 single-wire driver\<close>

text \<open>
  A shallow embedding of the driver in \<^verbatim>\<open>dht11.c\<close>: the two busy-polling primitives
  \<^verbatim>\<open>wait_for_level\<close> and \<^verbatim>\<open>measure_pulse\<close>, the transaction \<^verbatim>\<open>dht11_read\<close> and the two
  accessors of the latest-reading cache.
\<close>

subsection \<open>Data\<close>

type_synonym gpio_num_t = int
type_synonym uint8_t = "8 word"

text \<open>
  The error codes of \<^verbatim>\<open>esp_err.h\<close> that the driver returns. Their numeric values are
  pairwise different in the SDK; only their identity matters here.
\<close>

datatype esp_err_t = ESP_OK | ESP_ERR_INVALID_ARG | ESP_ERR_TIMEOUT | ESP_ERR_INVALID_CRC

datatype gpio_mode_t = GPIO_MODE_INPUT | GPIO_MODE_OUTPUT_OD

text \<open>
  The struct \<^verbatim>\<open>dht11_reading_t\<close> of \<^verbatim>\<open>dht11.h\<close>. Its two \<^verbatim>\<open>float\<close> fields only ever
  receive the conversion of a \<^verbatim>\<open>uint8_t\<close> (0..255), or the initial \<^verbatim>\<open>0.0f\<close>; these are
  exactly representable in single precision, so a \<^verbatim>\<open>float\<close> is modelled by the real
  number it denotes.
\<close>

record dht11_reading_t =
  temperature :: real
  humidity :: real

text \<open>
  The calls that the driver makes to the platform (GPIO driver and ROM delay), in the
  order in which it makes them.
\<close>

datatype hw_call =
    Gpio_set_direction gpio_num_t gpio_mode_t
  | Gpio_set_level gpio_num_t int
  | Gpio_get_level gpio_num_t
  | Ets_delay_us int

text \<open>
  The lines that the driver writes with \<^verbatim>\<open>ESP_LOGE\<close> and \<^verbatim>\<open>ESP_LOGI\<close>, one constructor
  per format string, with the arguments of the format:
  \<^item> \<open>Log_response_low\<close>: \<^verbatim>\<open>"Timeout waiting for response LOW"\<close>
  \<^item> \<open>Log_response_high\<close>: \<^verbatim>\<open>"Timeout waiting for response HIGH"\<close>
  \<^item> \<open>Log_data_start\<close>: \<^verbatim>\<open>"Timeout waiting for data start"\<close>
  \<^item> \<open>Log_bit_start i\<close>: \<^verbatim>\<open>"Timeout waiting for bit %d start"\<close>
  \<^item> \<open>Log_bit_pulse i\<close>: \<^verbatim>\<open>"Timeout measuring bit %d pulse"\<close>
  \<^item> \<open>Log_checksum c r\<close>: \<^verbatim>\<open>"Checksum error: calculated 0x%02X, received 0x%02X"\<close>
  \<^item> \<open>Log_reading t h\<close>: the information line with temperature and humidity.
\<close>

datatype log_line =
    Log_response_low
  | Log_response_high
  | Log_data_start
  | Log_bit_start nat
  | Log_bit_pulse nat
  | Log_checksum uint8_t uint8_t
  | Log_reading real real

text \<open>
  The environment of a run is the signal on the data line: \<open>line k\<close> is the level that
  the \<open>k\<close>-th call of \<^verbatim>\<open>gpio_get_level\<close> returns (counting from 0). Nothing is assumed
  about it.
\<close>

type_synonym pin_signal = "nat \<Rightarrow> int"

text \<open>
  The state that the driver reads and writes: how many times the line has been polled,
  the platform calls and log lines so far (oldest first), and the two file-scope
  variables \<^verbatim>\<open>current_humidity\<close> and \<^verbatim>\<open>current_temperature\<close>.
\<close>

record machine =
  polls :: nat
  calls :: "hw_call list"
  logs :: "log_line list"
  current_humidity :: real
  current_temperature :: real

text \<open>The state at program start: both statics are initialised to \<^verbatim>\<open>0.0f\<close>.\<close>

definition boot :: machine where
  "boot = \<lparr>polls = 0, calls = [], logs = [], current_humidity = 0, current_temperature = 0\<rparr>"

subsection \<open>The platform\<close>

text \<open>
  The GPIO driver, the ROM delay and the logger belong to the SDK, not to the driver.
  What the driver can observe of them is modelled: \<^verbatim>\<open>gpio_get_level\<close> answers with the
  next level of the line signal, the others return nothing that the driver uses (it
  ignores the result of \<^verbatim>\<open>gpio_set_direction\<close> and \<^verbatim>\<open>gpio_set_level\<close>). Each call
  is recorded in the state, so that properties can speak about which calls were made
  and in which order.
\<close>

definition gpio_set_direction :: "gpio_num_t \<Rightarrow> gpio_mode_t \<Rightarrow> machine \<Rightarrow> machine" where
  "gpio_set_direction gpio_num mode s = s\<lparr>calls := calls s @ [Gpio_set_direction gpio_num mode]\<rparr>"

definition gpio_set_level :: "gpio_num_t \<Rightarrow> int \<Rightarrow> machine \<Rightarrow> machine" where
  "gpio_set_level gpio_num level s = s\<lparr>calls := calls s @ [Gpio_set_level gpio_num level]\<rparr>"

definition gpio_get_level :: "pin_signal \<Rightarrow> gpio_num_t \<Rightarrow> machine \<Rightarrow> int \<times> machine" where
  "gpio_get_level line gpio_num s =
     (line (polls s), s\<lparr>polls := Suc (polls s), calls := calls s @ [Gpio_get_level gpio_num]\<rparr>)"

definition ets_delay_us :: "int \<Rightarrow> machine \<Rightarrow> machine" where
  "ets_delay_us us s = s\<lparr>calls := calls s @ [Ets_delay_us us]\<rparr>"

definition esp_log :: "log_line \<Rightarrow> machine \<Rightarrow> machine" where
  "esp_log msg s = s\<lparr>logs := logs s @ [msg]\<rparr>"

subsection \<open>The two polling primitives\<close>

text \<open>
  The largest value of a C \<^verbatim>\<open>int\<close> on the target (32 bits).
\<close>

definition INT_MAX :: int where
  "INT_MAX = 2147483647"

text \<open>
  \<^verbatim>\<open>wait_for_level\<close>: the loop polls, and on a mismatch compares the old value of
  \<^verbatim>\<open>elapsed\<close> with the budget before incrementing it (\<^verbatim>\<open>elapsed++ > timeout_us\<close>).

  The C \<^verbatim>\<open>int\<close> variables \<^verbatim>\<open>elapsed\<close> and \<^verbatim>\<open>timeout_us\<close> are modelled by \<open>int\<close>,
  without an upper end. The counter is incremented at most \<open>timeout_us + 2\<close> times, so the
  model and the code agree for every budget up to \<open>INT_MAX - 2\<close>, in particular for the
  budget 100, the only one that the driver passes. For a larger budget the increment
  overflows in C (at \<open>INT_MAX\<close> the test can never be true and the code keeps polling);
  the model says nothing about the code there, and the properties of the two primitives
  are stated for budgets up to \<open>INT_MAX - 2\<close> only.
\<close>

function wait_for_level_loop ::
  "pin_signal \<Rightarrow> gpio_num_t \<Rightarrow> int \<Rightarrow> int \<Rightarrow> int \<Rightarrow> machine \<Rightarrow> esp_err_t \<times> machine" where
  "wait_for_level_loop line gpio_num level timeout_us elapsed s =
     (let (v, s1) = gpio_get_level line gpio_num s in
      if v \<noteq> level then
        (if elapsed > timeout_us then (ESP_ERR_TIMEOUT, s1)
         else wait_for_level_loop line gpio_num level timeout_us (elapsed + 1) (ets_delay_us 1 s1))
      else (ESP_OK, s1))"
  by pat_completeness auto
termination
  by (relation "measure (\<lambda>(line, gpio_num, level, timeout_us, elapsed, s). nat (timeout_us + 1 - elapsed))")
    auto

declare wait_for_level_loop.simps [simp del]

definition wait_for_level ::
  "pin_signal \<Rightarrow> gpio_num_t \<Rightarrow> int \<Rightarrow> int \<Rightarrow> machine \<Rightarrow> esp_err_t \<times> machine" where
  "wait_for_level line gpio_num level timeout_us s =
     wait_for_level_loop line gpio_num level timeout_us 0 s"

text \<open>
  \<^verbatim>\<open>measure_pulse\<close>: the same loop shape; the result is the counter, or \<open>-1\<close>. The
  same range applies: up to the budget \<open>INT_MAX - 2\<close> the counter and the result are
  values of a C \<^verbatim>\<open>int\<close>.
\<close>

function measure_pulse_loop ::
  "pin_signal \<Rightarrow> gpio_num_t \<Rightarrow> int \<Rightarrow> int \<Rightarrow> int \<Rightarrow> machine \<Rightarrow> int \<times> machine" where
  "measure_pulse_loop line gpio_num level timeout_us elapsed s =
     (let (v, s1) = gpio_get_level line gpio_num s in
      if v = level then
        (if elapsed > timeout_us then (- 1, s1)
         else measure_pulse_loop line gpio_num level timeout_us (elapsed + 1) (ets_delay_us 1 s1))
      else (elapsed, s1))"
  by pat_completeness auto
termination
  by (relation "measure (\<lambda>(line, gpio_num, level, timeout_us, elapsed, s). nat (timeout_us + 1 - elapsed))")
    auto

declare measure_pulse_loop.simps [simp del]

definition measure_pulse ::
  "pin_signal \<Rightarrow> gpio_num_t \<Rightarrow> int \<Rightarrow> int \<Rightarrow> machine \<Rightarrow> int \<times> machine" where
  "measure_pulse line gpio_num level timeout_us s =
     measure_pulse_loop line gpio_num level timeout_us 0 s"

subsection \<open>The transaction\<close>

text \<open>
  The start signal (source lines 70 to 82): open-drain output, high for 1000us, low for
  20000us, high for 40us, then input mode.
\<close>

definition send_start :: "gpio_num_t \<Rightarrow> machine \<Rightarrow> machine" where
  "send_start gpio_num s =
     (let s = gpio_set_direction gpio_num GPIO_MODE_OUTPUT_OD s;
          s = gpio_set_level gpio_num 1 s;
          s = ets_delay_us 1000 s;
          s = gpio_set_level gpio_num 0 s;
          s = ets_delay_us 20000 s;
          s = gpio_set_level gpio_num 1 s;
          s = ets_delay_us 40 s
      in gpio_set_direction gpio_num GPIO_MODE_INPUT s)"

text \<open>
  An early \<^verbatim>\<open>return\<close> of the transaction is \<open>Inl\<close> of the error code and the state
  at that point; \<open>Inr\<close> carries on.

  The sensor's response (source lines 85 to 96): three waits with budget 100.
\<close>

definition await_response ::
  "pin_signal \<Rightarrow> gpio_num_t \<Rightarrow> machine \<Rightarrow> (esp_err_t \<times> machine) + machine" where
  "await_response line gpio_num s =
     (let (r1, s1) = wait_for_level line gpio_num 0 100 s in
      if r1 \<noteq> ESP_OK then Inl (ESP_ERR_TIMEOUT, esp_log Log_response_low s1)
      else
        let (r2, s2) = wait_for_level line gpio_num 1 100 s1 in
        if r2 \<noteq> ESP_OK then Inl (ESP_ERR_TIMEOUT, esp_log Log_response_high s2)
        else
          let (r3, s3) = wait_for_level line gpio_num 0 100 s2 in
          if r3 \<noteq> ESP_OK then Inl (ESP_ERR_TIMEOUT, esp_log Log_data_start s3)
          else Inr s3)"

text \<open>
  The update of the frame in one iteration of the bit loop (source lines 113 to 118).
  The index \<open>i\<close> runs from 0 to 39, so \<^verbatim>\<open>i / 8\<close> and \<^verbatim>\<open>i % 8\<close> are the divisions of
  natural numbers, and \<^verbatim>\<open>1 << bit_idx\<close> fits a byte.
\<close>

definition store_bit :: "nat \<Rightarrow> int \<Rightarrow> uint8_t list \<Rightarrow> uint8_t list" where
  "store_bit i duration data =
     (let byte_idx = i div 8;
          bit_idx = 7 - (i mod 8)
      in if duration > 40 then data[byte_idx := (data ! byte_idx) OR push_bit bit_idx 1]
         else data)"

text \<open>The loop over the 40 bits (source lines 99 to 119), from iteration \<open>i\<close> on.\<close>

function read_bits ::
  "pin_signal \<Rightarrow> gpio_num_t \<Rightarrow> nat \<Rightarrow> uint8_t list \<Rightarrow> machine
     \<Rightarrow> (esp_err_t \<times> machine) + (uint8_t list \<times> machine)" where
  "read_bits line gpio_num i data s =
     (if i < 40 then
        (let (r, s1) = wait_for_level line gpio_num 1 100 s in
         if r \<noteq> ESP_OK then Inl (ESP_ERR_TIMEOUT, esp_log (Log_bit_start i) s1)
         else
           let (duration, s2) = measure_pulse line gpio_num 1 100 s1 in
           if duration < 0 then Inl (ESP_ERR_TIMEOUT, esp_log (Log_bit_pulse i) s2)
           else read_bits line gpio_num (i + 1) (store_bit i duration data) s2)
      else Inr (data, s))"
  by pat_completeness auto
termination
  by (relation "measure (\<lambda>(line, gpio_num, i, data, s). 40 - i)") auto

declare read_bits.simps [simp del]

text \<open>
  Everything between the argument check and the checksum (source lines 68 to 119):
  the frame starts as five zero bytes.
\<close>

definition receive_frame ::
  "pin_signal \<Rightarrow> gpio_num_t \<Rightarrow> machine \<Rightarrow> (esp_err_t \<times> machine) + (uint8_t list \<times> machine)" where
  "receive_frame line gpio_num s =
     (case await_response line gpio_num (send_start gpio_num s) of
        Inl e \<Rightarrow> Inl e
      | Inr s1 \<Rightarrow> read_bits line gpio_num 0 [0, 0, 0, 0, 0] s1)"

text \<open>
  The checksum (source line 122): the four bytes are promoted to \<^verbatim>\<open>int\<close>, added,
  masked with \<^verbatim>\<open>0xFF\<close> and stored in a \<^verbatim>\<open>uint8_t\<close>.
\<close>

definition frame_checksum :: "uint8_t list \<Rightarrow> uint8_t" where
  "frame_checksum data =
     word_of_int ((uint (data ! 0) + uint (data ! 1) + uint (data ! 2) + uint (data ! 3)) AND 0xFF)"

text \<open>
  \<^verbatim>\<open>dht11_read\<close>. The pointer argument is \<open>None\<close> for \<^verbatim>\<open>NULL\<close> and \<open>Some r\<close> for a
  pointer to storage that holds \<open>r\<close>; the second component of the result is that
  storage after the call.
\<close>

definition dht11_read ::
  "pin_signal \<Rightarrow> gpio_num_t \<Rightarrow> dht11_reading_t option \<Rightarrow> machine
     \<Rightarrow> esp_err_t \<times> dht11_reading_t option \<times> machine" where
  "dht11_read line gpio_num reading s =
     (case reading of
        None \<Rightarrow> (ESP_ERR_INVALID_ARG, None, s)
      | Some r \<Rightarrow>
          (case receive_frame line gpio_num s of
             Inl (err, s1) \<Rightarrow> (err, Some r, s1)
           | Inr (data, s1) \<Rightarrow>
               let checksum = frame_checksum data in
               if checksum \<noteq> data ! 4
               then (ESP_ERR_INVALID_CRC, Some r, esp_log (Log_checksum checksum (data ! 4)) s1)
               else
                 let r = r\<lparr>humidity := real (unat (data ! 0))\<rparr>;
                     r = r\<lparr>temperature := real (unat (data ! 2))\<rparr>;
                     s2 = s1\<lparr>current_humidity := humidity r\<rparr>;
                     s2 = s2\<lparr>current_temperature := temperature r\<rparr>;
                     s2 = esp_log (Log_reading (temperature r) (humidity r)) s2
                 in (ESP_OK, Some r, s2)))"

definition dht11_get_humidity :: "machine \<Rightarrow> real" where
  "dht11_get_humidity s = current_humidity s"

definition dht11_get_temperature :: "machine \<Rightarrow> real" where
  "dht11_get_temperature s = current_temperature s"

section \<open>Vocabulary of the properties\<close>

subsection \<open>Platform calls\<close>

text \<open>
  The platform calls of a wait that polls \<open>k + 1\<close> times: each poll but the last is
  followed by a delay of one microsecond.
\<close>

definition poll_calls :: "gpio_num_t \<Rightarrow> nat \<Rightarrow> hw_call list" where
  "poll_calls gpio_num k =
     concat (replicate k [Gpio_get_level gpio_num, Ets_delay_us 1]) @ [Gpio_get_level gpio_num]"

text \<open>
  The platform calls of the start signal, in the order of the source.
\<close>

definition start_calls :: "gpio_num_t \<Rightarrow> hw_call list" where
  "start_calls g =
     [Gpio_set_direction g GPIO_MODE_OUTPUT_OD,
      Gpio_set_level g 1, Ets_delay_us 1000,
      Gpio_set_level g 0, Ets_delay_us 20000,
      Gpio_set_level g 1, Ets_delay_us 40,
      Gpio_set_direction g GPIO_MODE_INPUT]"

text \<open>
  \<open>polling_only g s s'\<close>: from \<open>s\<close> to \<open>s'\<close> the driver has only polled line \<open>g\<close> and
  waited single microseconds; the log and the two cached values are as in \<open>s\<close>.
\<close>

definition polling_only :: "gpio_num_t \<Rightarrow> machine \<Rightarrow> machine \<Rightarrow> bool" where
  "polling_only g s s' \<longleftrightarrow>
     logs s' = logs s \<and> current_humidity s' = current_humidity s
     \<and> current_temperature s' = current_temperature s
     \<and> (\<exists>xs. calls s' = calls s @ xs \<and> set xs \<subseteq> {Gpio_get_level g, Ets_delay_us 1})"

text \<open>
  The log lines that name a timed-out step of the protocol; the bit loop has the
  iterations 0 to 39.
\<close>

fun timeout_step :: "log_line \<Rightarrow> bool" where
  "timeout_step Log_response_low = True"
| "timeout_step Log_response_high = True"
| "timeout_step Log_data_start = True"
| "timeout_step (Log_bit_start i) = (i < 40)"
| "timeout_step (Log_bit_pulse i) = (i < 40)"
| "timeout_step (Log_checksum c r) = False"
| "timeout_step (Log_reading t h) = False"

subsection \<open>Line signals\<close>

text \<open>
  A line that shows the listed levels at successive polls and is high afterwards (the
  idle level of the pulled-up wire), and a line that never changes.
\<close>

definition signal_of :: "int list \<Rightarrow> pin_signal" where
  "signal_of w k = (if k < length w then w ! k else 1)"

definition stuck_at :: "int \<Rightarrow> pin_signal" where
  "stuck_at v k = v"

text \<open>
  \<open>carries line n w\<close>: from poll \<open>n\<close> on, the line shows the levels \<open>w\<close>.
\<close>

definition carries :: "pin_signal \<Rightarrow> nat \<Rightarrow> int list \<Rightarrow> bool" where
  "carries line n w \<longleftrightarrow> (\<forall>k<length w. line (n + k) = w ! k)"

text \<open>
  One bit cell as the polls see it, for a pair \<open>(l, d)\<close>: \<open>l\<close> polls low, the poll that
  finds the line high and ends the wait, \<open>d\<close> further polls high (the duration that
  \<^verbatim>\<open>measure_pulse\<close> counts), and the poll that finds the line low again.
\<close>

definition bit_wave :: "nat \<times> nat \<Rightarrow> int list" where
  "bit_wave p = replicate (fst p) 0 @ [1] @ replicate (snd p) 1 @ [0]"

text \<open>
  The sensor's response for a triple \<open>(h0, l1, h1)\<close>: \<open>h0\<close> polls high before the line
  goes low, \<open>l1\<close> further polls low before it goes high, \<open>h1\<close> further polls high before
  it goes low for the first bit.
\<close>

definition response_wave :: "nat \<times> nat \<times> nat \<Rightarrow> int list" where
  "response_wave a =
     (case a of (h0, l1, h1) \<Rightarrow>
        replicate h0 1 @ [0] @ replicate l1 0 @ [1] @ replicate h1 1 @ [0])"

text \<open>
  A whole answer of the sensor: the response, then the bit cells.
\<close>

definition dht11_wave :: "nat \<times> nat \<times> nat \<Rightarrow> (nat \<times> nat) list \<Rightarrow> int list" where
  "dht11_wave a ps = response_wave a @ concat (map bit_wave ps)"

text \<open>
  A sensor that sends the given bytes, most significant bit first, with the timing of the
  data sheet in polls: 50 low per bit, then 26 high for a 0 and 70 high for a 1.
\<close>

definition byte_bits :: "uint8_t \<Rightarrow> bool list" where
  "byte_bits b = map (bit b) [7, 6, 5, 4, 3, 2, 1, 0]"

definition frame_pulses :: "uint8_t list \<Rightarrow> (nat \<times> nat) list" where
  "frame_pulses bytes = map (\<lambda>b. (50, if b then 70 else 26)) (concat (map byte_bits bytes))"

definition sensor_line :: "uint8_t list \<Rightarrow> pin_signal" where
  "sensor_line bytes = signal_of (dht11_wave (20, 80, 80) (frame_pulses bytes))"

text \<open>
  Forty bit cells whose high phases are measured as 40 polls, but for cells 2, 3 and 6 as
  41 polls.
\<close>

definition boundary_pulses :: "(nat \<times> nat) list" where
  "boundary_pulses =
     [(50, 40), (50, 40), (50, 41), (50, 41), (50, 40), (50, 40), (50, 41), (50, 40)]
     @ replicate 32 (50, 40)"

subsection \<open>Frames and runs\<close>

text \<open>
  The frame after the iterations \<open>i\<close>, \<open>i + 1\<close>, ... of the bit loop have stored the
  durations \<open>ds\<close>.
\<close>

fun store_bits :: "nat \<Rightarrow> int list \<Rightarrow> uint8_t list \<Rightarrow> uint8_t list" where
  "store_bits i [] data = data"
| "store_bits i (d # ds) data = store_bits (Suc i) ds (store_bit i d data)"

text \<open>
  A run of the program as far as the cache is concerned: a sequence of calls of
  \<^verbatim>\<open>dht11_read\<close>, each with the signal that its polls see, its line number and its
  destination; the results are collected in order. \<open>last_success\<close> is the destination
  after the most recent call that returned \<open>ESP_OK\<close>, if there is one.
\<close>

fun dht11_reads ::
  "(pin_signal \<times> gpio_num_t \<times> dht11_reading_t option) list \<Rightarrow> machine
     \<Rightarrow> (esp_err_t \<times> dht11_reading_t option) list \<times> machine" where
  "dht11_reads [] s = ([], s)"
| "dht11_reads ((line, gpio_num, reading) # cs) s =
     (case dht11_read line gpio_num reading s of
        (err, reading', s1) \<Rightarrow>
          (case dht11_reads cs s1 of (rs, s2) \<Rightarrow> ((err, reading') # rs, s2)))"

fun last_success :: "(esp_err_t \<times> dht11_reading_t option) list \<Rightarrow> dht11_reading_t option" where
  "last_success [] = None"
| "last_success ((err, reading) # rs) =
     (case last_success rs of
        Some r \<Rightarrow> Some r
      | None \<Rightarrow> if err = ESP_OK then reading else None)"

section \<open>The polling primitives on a known signal\<close>

lemma wait_loop_hit:
  "\<forall>j<k. line (polls s + j) \<noteq> level \<Longrightarrow> line (polls s + k) = level \<Longrightarrow>
   elapsed + int k \<le> timeout_us + 1 \<Longrightarrow>
   wait_for_level_loop line g level timeout_us elapsed s =
     (ESP_OK, s\<lparr>polls := polls s + k + 1, calls := calls s @ poll_calls g k\<rparr>)"
proof (induction k arbitrary: elapsed s)
  case 0
  then show ?case
    by (subst wait_for_level_loop.simps) (simp add: gpio_get_level_def poll_calls_def)
next
  case (Suc k)
  let ?s' = "ets_delay_us 1 (snd (gpio_get_level line g s))"
  have p: "polls ?s' = Suc (polls s)"
    by (simp add: gpio_get_level_def ets_delay_us_def)
  have m: "line (polls s) \<noteq> level"
    using Suc.prems(1) by (metis add.right_neutral zero_less_Suc)
  have "\<forall>j<k. line (polls ?s' + j) \<noteq> level"
  proof (intro allI impI)
    fix j assume "j < k"
    then have "Suc j < Suc k" by simp
    from Suc.prems(1) [rule_format, OF this] show "line (polls ?s' + j) \<noteq> level"
      by (simp add: p)
  qed
  moreover have "line (polls ?s' + k) = level"
    using Suc.prems(2) by (simp add: p)
  moreover have "(elapsed + 1) + int k \<le> timeout_us + 1"
    using Suc.prems(3) by simp
  ultimately have ih: "wait_for_level_loop line g level timeout_us (elapsed + 1) ?s' =
     (ESP_OK, ?s'\<lparr>polls := polls ?s' + k + 1, calls := calls ?s' @ poll_calls g k\<rparr>)"
    by (rule Suc.IH)
  have e: "\<not> elapsed > timeout_us"
    using Suc.prems(3) by simp
  show ?case
    apply (subst wait_for_level_loop.simps)
    using m e ih
    by (simp add: gpio_get_level_def ets_delay_us_def poll_calls_def)
qed

lemma wait_loop_miss:
  "\<forall>j\<le>n. line (polls s + j) \<noteq> level \<Longrightarrow> elapsed + int n = timeout_us + 1 \<Longrightarrow>
   wait_for_level_loop line g level timeout_us elapsed s =
     (ESP_ERR_TIMEOUT, s\<lparr>polls := polls s + n + 1, calls := calls s @ poll_calls g n\<rparr>)"
proof (induction n arbitrary: elapsed s)
  case 0
  then show ?case
    by (subst wait_for_level_loop.simps) (simp add: gpio_get_level_def poll_calls_def)
next
  case (Suc n)
  let ?s' = "ets_delay_us 1 (snd (gpio_get_level line g s))"
  have p: "polls ?s' = Suc (polls s)"
    by (simp add: gpio_get_level_def ets_delay_us_def)
  have m: "line (polls s) \<noteq> level"
    using Suc.prems(1) by (metis add.right_neutral le0)
  have "\<forall>j\<le>n. line (polls ?s' + j) \<noteq> level"
  proof (intro allI impI)
    fix j assume "j \<le> n"
    then have "Suc j \<le> Suc n" by simp
    from Suc.prems(1) [rule_format, OF this] show "line (polls ?s' + j) \<noteq> level"
      by (simp add: p)
  qed
  moreover have "(elapsed + 1) + int n = timeout_us + 1"
    using Suc.prems(2) by simp
  ultimately have ih: "wait_for_level_loop line g level timeout_us (elapsed + 1) ?s' =
     (ESP_ERR_TIMEOUT, ?s'\<lparr>polls := polls ?s' + n + 1, calls := calls ?s' @ poll_calls g n\<rparr>)"
    by (rule Suc.IH)
  have e: "\<not> elapsed > timeout_us"
    using Suc.prems(2) by simp
  show ?case
    apply (subst wait_for_level_loop.simps)
    using m e ih
    by (simp add: gpio_get_level_def ets_delay_us_def poll_calls_def)
qed

lemma measure_loop_end:
  "\<forall>j<k. line (polls s + j) = level \<Longrightarrow> line (polls s + k) \<noteq> level \<Longrightarrow>
   elapsed + int k \<le> timeout_us + 1 \<Longrightarrow>
   measure_pulse_loop line g level timeout_us elapsed s =
     (elapsed + int k, s\<lparr>polls := polls s + k + 1, calls := calls s @ poll_calls g k\<rparr>)"
proof (induction k arbitrary: elapsed s)
  case 0
  then show ?case
    by (subst measure_pulse_loop.simps) (simp add: gpio_get_level_def poll_calls_def)
next
  case (Suc k)
  let ?s' = "ets_delay_us 1 (snd (gpio_get_level line g s))"
  have p: "polls ?s' = Suc (polls s)"
    by (simp add: gpio_get_level_def ets_delay_us_def)
  have m: "line (polls s) = level"
    using Suc.prems(1) by (metis add.right_neutral zero_less_Suc)
  have "\<forall>j<k. line (polls ?s' + j) = level"
  proof (intro allI impI)
    fix j assume "j < k"
    then have "Suc j < Suc k" by simp
    from Suc.prems(1) [rule_format, OF this] show "line (polls ?s' + j) = level"
      by (simp add: p)
  qed
  moreover have "line (polls ?s' + k) \<noteq> level"
    using Suc.prems(2) by (simp add: p)
  moreover have "(elapsed + 1) + int k \<le> timeout_us + 1"
    using Suc.prems(3) by simp
  ultimately have ih: "measure_pulse_loop line g level timeout_us (elapsed + 1) ?s' =
     (elapsed + 1 + int k, ?s'\<lparr>polls := polls ?s' + k + 1, calls := calls ?s' @ poll_calls g k\<rparr>)"
    by (rule Suc.IH)
  have e: "\<not> elapsed > timeout_us"
    using Suc.prems(3) by simp
  show ?case
    apply (subst measure_pulse_loop.simps)
    using m e ih
    by (simp add: gpio_get_level_def ets_delay_us_def poll_calls_def)
qed

lemma measure_loop_over:
  "\<forall>j\<le>n. line (polls s + j) = level \<Longrightarrow> elapsed + int n = timeout_us + 1 \<Longrightarrow>
   measure_pulse_loop line g level timeout_us elapsed s =
     (- 1, s\<lparr>polls := polls s + n + 1, calls := calls s @ poll_calls g n\<rparr>)"
proof (induction n arbitrary: elapsed s)
  case 0
  then show ?case
    by (subst measure_pulse_loop.simps) (simp add: gpio_get_level_def poll_calls_def)
next
  case (Suc n)
  let ?s' = "ets_delay_us 1 (snd (gpio_get_level line g s))"
  have p: "polls ?s' = Suc (polls s)"
    by (simp add: gpio_get_level_def ets_delay_us_def)
  have m: "line (polls s) = level"
    using Suc.prems(1) by (metis add.right_neutral le0)
  have "\<forall>j\<le>n. line (polls ?s' + j) = level"
  proof (intro allI impI)
    fix j assume "j \<le> n"
    then have "Suc j \<le> Suc n" by simp
    from Suc.prems(1) [rule_format, OF this] show "line (polls ?s' + j) = level"
      by (simp add: p)
  qed
  moreover have "(elapsed + 1) + int n = timeout_us + 1"
    using Suc.prems(2) by simp
  ultimately have ih: "measure_pulse_loop line g level timeout_us (elapsed + 1) ?s' =
     (- 1, ?s'\<lparr>polls := polls ?s' + n + 1, calls := calls ?s' @ poll_calls g n\<rparr>)"
    by (rule Suc.IH)
  have e: "\<not> elapsed > timeout_us"
    using Suc.prems(2) by simp
  show ?case
    apply (subst measure_pulse_loop.simps)
    using m e ih
    by (simp add: gpio_get_level_def ets_delay_us_def poll_calls_def)
qed

lemma first_hit:
  fixes P :: "nat \<Rightarrow> bool"
  assumes "\<exists>k\<le>b. P k"
  obtains k where "k \<le> b" "P k" "\<forall>j<k. \<not> P j"
proof -
  from assms obtain k0 where k0: "k0 \<le> b" "P k0" by blast
  define k where "k = (LEAST k. P k)"
  have "P k" unfolding k_def using k0(2) by (rule LeastI)
  moreover have "k \<le> k0" unfolding k_def using k0(2) by (rule Least_le)
  moreover have "\<forall>j<k. \<not> P j" unfolding k_def using not_less_Least by blast
  ultimately show ?thesis using that k0(1) by (meson le_trans)
qed

lemma wait_for_level_hit:
  assumes "\<forall>j<k. line (polls s + j) \<noteq> level" "line (polls s + k) = level"
    "int k \<le> timeout_us + 1"
  shows "wait_for_level line g level timeout_us s =
     (ESP_OK, s\<lparr>polls := polls s + k + 1, calls := calls s @ poll_calls g k\<rparr>)"
  unfolding wait_for_level_def using assms by (intro wait_loop_hit) simp_all

lemma wait_for_level_miss:
  assumes "0 \<le> timeout_us" "\<forall>j\<le>nat timeout_us + 1. line (polls s + j) \<noteq> level"
  shows "wait_for_level line g level timeout_us s =
     (ESP_ERR_TIMEOUT, s\<lparr>polls := polls s + nat timeout_us + 2,
        calls := calls s @ poll_calls g (nat timeout_us + 1)\<rparr>)"
proof -
  have "wait_for_level_loop line g level timeout_us 0 s =
     (ESP_ERR_TIMEOUT, s\<lparr>polls := polls s + (nat timeout_us + 1) + 1,
        calls := calls s @ poll_calls g (nat timeout_us + 1)\<rparr>)"
    using assms by (intro wait_loop_miss) simp_all
  then show ?thesis by (simp add: wait_for_level_def)
qed

lemma measure_pulse_end:
  assumes "\<forall>j<k. line (polls s + j) = level" "line (polls s + k) \<noteq> level"
    "int k \<le> timeout_us + 1"
  shows "measure_pulse line g level timeout_us s =
     (int k, s\<lparr>polls := polls s + k + 1, calls := calls s @ poll_calls g k\<rparr>)"
proof -
  have "measure_pulse_loop line g level timeout_us 0 s =
     (0 + int k, s\<lparr>polls := polls s + k + 1, calls := calls s @ poll_calls g k\<rparr>)"
    using assms by (intro measure_loop_end) simp_all
  then show ?thesis by (simp add: measure_pulse_def)
qed

lemma measure_pulse_over:
  assumes "0 \<le> timeout_us" "\<forall>j\<le>nat timeout_us + 1. line (polls s + j) = level"
  shows "measure_pulse line g level timeout_us s =
     (- 1, s\<lparr>polls := polls s + nat timeout_us + 2,
        calls := calls s @ poll_calls g (nat timeout_us + 1)\<rparr>)"
proof -
  have "measure_pulse_loop line g level timeout_us 0 s =
     (- 1, s\<lparr>polls := polls s + (nat timeout_us + 1) + 1,
        calls := calls s @ poll_calls g (nat timeout_us + 1)\<rparr>)"
    using assms by (intro measure_loop_over) simp_all
  then show ?thesis by (simp add: measure_pulse_def)
qed

section \<open>What every run leaves untouched\<close>

lemma polling_only_refl: "polling_only g s s"
  by (simp add: polling_only_def)

lemma polling_only_trans:
  "polling_only g s s1 \<Longrightarrow> polling_only g s1 s2 \<Longrightarrow> polling_only g s s2"
  unfolding polling_only_def by auto

lemma wait_loop_polling:
  "wait_for_level_loop line g level t e s = (r, s') \<Longrightarrow> polling_only g s s'"
proof (induction line g level t e s rule: wait_for_level_loop.induct)
  case (1 line g level t e s)
  let ?s1 = "s\<lparr>polls := Suc (polls s), calls := calls s @ [Gpio_get_level g]\<rparr>"
  have v: "gpio_get_level line g s = (line (polls s), ?s1)"
    by (simp add: gpio_get_level_def)
  have p1: "polling_only g s ?s1" and p2: "polling_only g s (ets_delay_us 1 ?s1)"
    by (simp_all add: polling_only_def ets_delay_us_def)
  show ?case
  proof (cases "line (polls s) \<noteq> level \<and> \<not> e > t")
    case True
    then have "wait_for_level_loop line g level t (e + 1) (ets_delay_us 1 ?s1) = (r, s')"
      using "1.prems" by (subst (asm) wait_for_level_loop.simps) (simp add: v)
    with True have "polling_only g (ets_delay_us 1 ?s1) s'"
      using "1.IH" [OF v [symmetric]] by simp
    with p2 show ?thesis by (rule polling_only_trans)
  next
    case False
    then have "s' = ?s1"
      using "1.prems" by (subst (asm) wait_for_level_loop.simps) (auto simp: v split: if_splits)
    then show ?thesis by (simp add: p1)
  qed
qed

lemma measure_loop_polling:
  "measure_pulse_loop line g level t e s = (r, s') \<Longrightarrow> polling_only g s s'"
proof (induction line g level t e s rule: measure_pulse_loop.induct)
  case (1 line g level t e s)
  let ?s1 = "s\<lparr>polls := Suc (polls s), calls := calls s @ [Gpio_get_level g]\<rparr>"
  have v: "gpio_get_level line g s = (line (polls s), ?s1)"
    by (simp add: gpio_get_level_def)
  have p1: "polling_only g s ?s1" and p2: "polling_only g s (ets_delay_us 1 ?s1)"
    by (simp_all add: polling_only_def ets_delay_us_def)
  show ?case
  proof (cases "line (polls s) = level \<and> \<not> e > t")
    case True
    then have "measure_pulse_loop line g level t (e + 1) (ets_delay_us 1 ?s1) = (r, s')"
      using "1.prems" by (subst (asm) measure_pulse_loop.simps) (simp add: v)
    with True have "polling_only g (ets_delay_us 1 ?s1) s'"
      using "1.IH" [OF v [symmetric]] by simp
    with p2 show ?thesis by (rule polling_only_trans)
  next
    case False
    then have "s' = ?s1"
      using "1.prems" by (subst (asm) measure_pulse_loop.simps) (auto simp: v split: if_splits)
    then show ?thesis by (simp add: p1)
  qed
qed

lemma wait_for_level_polling:
  "wait_for_level line g level t s = (r, s') \<Longrightarrow> polling_only g s s'"
  unfolding wait_for_level_def by (rule wait_loop_polling)

lemma measure_pulse_polling:
  "measure_pulse line g level t s = (r, s') \<Longrightarrow> polling_only g s s'"
  unfolding measure_pulse_def by (rule measure_loop_polling)

lemma await_response_Inr:
  "await_response line g s = Inr s' \<Longrightarrow> polling_only g s s'"
  unfolding await_response_def
  by (auto simp: Let_def split: prod.splits if_splits
      dest!: wait_for_level_polling intro: polling_only_trans)

lemma await_response_Inl:
  assumes "await_response line g s = Inl (e, s')"
  shows "e = ESP_ERR_TIMEOUT \<and>
   (\<exists>m s1. s' = esp_log m s1 \<and> polling_only g s s1
      \<and> (m = Log_response_low \<or> m = Log_response_high \<or> m = Log_data_start))"
proof -
  obtain r1 s1 where w1: "wait_for_level line g 0 100 s = (r1, s1)" by force
  obtain r2 s2 where w2: "wait_for_level line g 1 100 s1 = (r2, s2)" by force
  obtain r3 s3 where w3: "wait_for_level line g 0 100 s2 = (r3, s3)" by force
  note p1 = wait_for_level_polling [OF w1]
  note p2 = polling_only_trans [OF p1 wait_for_level_polling [OF w2]]
  note p3 = polling_only_trans [OF p2 wait_for_level_polling [OF w3]]
  from assms have "e = ESP_ERR_TIMEOUT"
    and "s' = esp_log Log_response_low s1 \<or> s' = esp_log Log_response_high s2
         \<or> s' = esp_log Log_data_start s3"
    by (auto simp: await_response_def w1 w2 w3 split: if_splits)
  with p1 p2 p3 show ?thesis by blast
qed

lemma store_bit_length: "length (store_bit i d data) = length data"
  by (simp add: store_bit_def Let_def)

lemma read_bits_Inr:
  "read_bits line g i data s = Inr (data', s') \<Longrightarrow>
   polling_only g s s' \<and> length data' = length data"
proof (induction line g i data s rule: read_bits.induct)
  case (1 line g i data s)
  show ?case
  proof (cases "i < 40")
    case False
    with "1.prems" show ?thesis
      by (subst (asm) read_bits.simps) (simp add: polling_only_refl)
  next
    case True
    obtain r s1 where w: "wait_for_level line g 1 100 s = (r, s1)" by force
    obtain d s2 where m: "measure_pulse line g 1 100 s1 = (d, s2)" by force
    from "1.prems" True w m have ok: "r = ESP_OK" "\<not> d < 0"
      and rest: "read_bits line g (i + 1) (store_bit i d data) s2 = Inr (data', s')"
      by (subst (asm) read_bits.simps, simp split: if_splits)+
    from ok(1) have r': "\<not> r \<noteq> ESP_OK" by simp
    from "1.IH" [OF True refl w [symmetric] r' refl m [symmetric] ok(2) rest]
    have "polling_only g s2 s' \<and> length data' = length (store_bit i d data)" .
    with wait_for_level_polling [OF w] measure_pulse_polling [OF m]
    show ?thesis by (auto simp: store_bit_length intro: polling_only_trans)
  qed
qed

lemma read_bits_Inl:
  "read_bits line g i data s = Inl (e, s') \<Longrightarrow>
   e = ESP_ERR_TIMEOUT \<and>
   (\<exists>m s1 j. s' = esp_log m s1 \<and> polling_only g s s1 \<and> i \<le> j \<and> j < 40
      \<and> (m = Log_bit_start j \<or> m = Log_bit_pulse j))"
proof (induction line g i data s rule: read_bits.induct)
  case (1 line g i data s)
  show ?case
  proof (cases "i < 40")
    case False
    with "1.prems" show ?thesis
      by (subst (asm) read_bits.simps) simp
  next
    case True
    obtain r s1 where w: "wait_for_level line g 1 100 s = (r, s1)" by force
    obtain d s2 where m: "measure_pulse line g 1 100 s1 = (d, s2)" by force
    note p1 = wait_for_level_polling [OF w]
    note p2 = polling_only_trans [OF p1 measure_pulse_polling [OF m]]
    show ?thesis
    proof (cases "r \<noteq> ESP_OK")
      case True
      with "1.prems" \<open>i < 40\<close> w have "e = ESP_ERR_TIMEOUT" "s' = esp_log (Log_bit_start i) s1"
        by (subst (asm) read_bits.simps, simp)+
      with p1 \<open>i < 40\<close> show ?thesis by blast
    next
      case False
      note r = this
      show ?thesis
      proof (cases "d < 0")
        case True
        with "1.prems" \<open>i < 40\<close> w m r
        have "e = ESP_ERR_TIMEOUT" "s' = esp_log (Log_bit_pulse i) s2"
          by (subst (asm) read_bits.simps, simp)+
        with p2 \<open>i < 40\<close> show ?thesis by blast
      next
        case False
        with "1.prems" \<open>i < 40\<close> w m r
        have rest: "read_bits line g (i + 1) (store_bit i d data) s2 = Inl (e, s')"
          by (subst (asm) read_bits.simps) simp
        from r have r': "\<not> r \<noteq> ESP_OK" by simp
        from "1.IH" [OF \<open>i < 40\<close> refl w [symmetric] r' refl m [symmetric] False rest]
        obtain m' s3 j where j: "e = ESP_ERR_TIMEOUT" "s' = esp_log m' s3"
          "polling_only g s2 s3" "i + 1 \<le> j" "j < 40"
          "m' = Log_bit_start j \<or> m' = Log_bit_pulse j"
          by blast
        from polling_only_trans [OF p2 j(3)] j show ?thesis
          by (intro conjI exI [of _ m'] exI [of _ s3] exI [of _ j]) simp_all
      qed
    qed
  qed
qed

lemma send_start_polls: "polls (send_start g s) = polls s"
  by (simp add: send_start_def gpio_set_direction_def gpio_set_level_def ets_delay_us_def)

lemma send_start_calls: "send_start g s = s\<lparr>calls := calls s @ start_calls g\<rparr>"
  by (simp add: send_start_def start_calls_def gpio_set_direction_def gpio_set_level_def
      ets_delay_us_def)

lemma receive_frame_Inr:
  assumes "receive_frame line g s = Inr (data, s1)"
  shows "polling_only g (send_start g s) s1 \<and> length data = 5"
proof -
  from assms obtain s0 where a: "await_response line g (send_start g s) = Inr s0"
    and b: "read_bits line g 0 [0, 0, 0, 0, 0] s0 = Inr (data, s1)"
    by (auto simp: receive_frame_def split: sum.splits)
  from await_response_Inr [OF a] read_bits_Inr [OF b] show ?thesis
    by (auto intro: polling_only_trans)
qed

lemma receive_frame_Inl:
  assumes "receive_frame line g s = Inl (e, s')"
  shows "e = ESP_ERR_TIMEOUT \<and>
    (\<exists>m s1. s' = esp_log m s1 \<and> polling_only g (send_start g s) s1 \<and> timeout_step m)"
proof (cases "await_response line g (send_start g s)")
  case (Inl x)
  with assms have "await_response line g (send_start g s) = Inl (e, s')"
    by (simp add: receive_frame_def)
  from await_response_Inl [OF this] obtain m s1 where m: "e = ESP_ERR_TIMEOUT"
    "s' = esp_log m s1" "polling_only g (send_start g s) s1"
    "m = Log_response_low \<or> m = Log_response_high \<or> m = Log_data_start"
    by blast
  from m(4) have "timeout_step m" by auto
  with m show ?thesis by blast
next
  case (Inr s0)
  with assms have "read_bits line g 0 [0, 0, 0, 0, 0] s0 = Inl (e, s')"
    by (simp add: receive_frame_def)
  from read_bits_Inl [OF this] obtain m s1 j where j: "e = ESP_ERR_TIMEOUT" "s' = esp_log m s1"
    "polling_only g s0 s1" "j < 40" "m = Log_bit_start j \<or> m = Log_bit_pulse j"
    by blast
  from j(4,5) have "timeout_step m" by auto
  with j polling_only_trans [OF await_response_Inr [OF Inr] j(3)] show ?thesis by blast
qed

lemma polling_only_cache:
  "polling_only g (send_start g s) s1 \<Longrightarrow>
   current_humidity s1 = current_humidity s \<and> current_temperature s1 = current_temperature s
   \<and> logs s1 = logs s"
  by (simp add: polling_only_def send_start_calls)

section \<open>Checksum and result\<close>

lemma mask_byte: "(x AND 0xFF) = take_bit 8 x" for x :: int
  using take_bit_eq_mask [of 8 x] by (simp add: mask_eq_exp_minus_1)

lemma word_of_int_take_byte: "(word_of_int (take_bit 8 x) :: uint8_t) = word_of_int x"
  by (simp add: word_of_int_eq_iff)

lemma frame_checksum_sum:
  "frame_checksum data = data ! 0 + data ! 1 + data ! 2 + data ! 3"
  unfolding frame_checksum_def mask_byte word_of_int_take_byte by simp

lemma frame_checksum_unat:
  "unat (frame_checksum data) =
     (unat (data ! 0) + unat (data ! 1) + unat (data ! 2) + unat (data ! 3)) mod 256"
  by (simp add: frame_checksum_sum unat_word_ariths mod_simps)

lemma checksum_ok_iff:
  "frame_checksum data = data ! 4 \<longleftrightarrow>
     unat (data ! 4) = (unat (data ! 0) + unat (data ! 1) + unat (data ! 2) + unat (data ! 3)) mod 256"
  by (auto simp: word_unat_eq_iff frame_checksum_unat)

lemma dht11_read_frame:
  assumes "receive_frame line g s = Inr (data, s1)"
  shows "dht11_read line g (Some r) s =
    (if frame_checksum data \<noteq> data ! 4
     then (ESP_ERR_INVALID_CRC, Some r, esp_log (Log_checksum (frame_checksum data) (data ! 4)) s1)
     else (ESP_OK,
           Some \<lparr>temperature = real (unat (data ! 2)), humidity = real (unat (data ! 0))\<rparr>,
           s1\<lparr>logs := logs s1 @ [Log_reading (real (unat (data ! 2))) (real (unat (data ! 0)))],
              current_humidity := real (unat (data ! 0)),
              current_temperature := real (unat (data ! 2))\<rparr>))"
  by (cases r) (simp add: dht11_read_def assms Let_def esp_log_def)

lemma dht11_read_abort:
  assumes "receive_frame line g s = Inl (e, s1)"
  shows "dht11_read line g (Some r) s = (e, Some r, s1)"
  by (simp add: dht11_read_def assms)

lemma dht11_read_log:
  assumes "dht11_read line g (Some r) s = (e, rd', s')"
  shows "\<exists>m. logs s' = logs s @ [m] \<and> (timeout_step m \<longleftrightarrow> e = ESP_ERR_TIMEOUT)"
proof (cases "receive_frame line g s")
  case (Inl x)
  obtain e1 s1 where x: "x = (e1, s1)" by (cases x)
  from receive_frame_Inl [OF Inl [unfolded x]] obtain m s2
    where m: "e1 = ESP_ERR_TIMEOUT" "s1 = esp_log m s2" "polling_only g (send_start g s) s2"
      "timeout_step m"
    by blast
  from dht11_read_abort [OF Inl [unfolded x], of r] assms have "e = e1" "s' = s1" by simp_all
  with m polling_only_cache [OF m(3)] have "logs s' = logs s @ [m]" "e = ESP_ERR_TIMEOUT"
    by (simp_all add: esp_log_def)
  with m(4) show ?thesis by blast
next
  case (Inr y)
  obtain data s1 where y: "y = (data, s1)" by (cases y)
  note f = dht11_read_frame [OF Inr [unfolded y], of r]
  from receive_frame_Inr [OF Inr [unfolded y]] polling_only_cache [of g s s1]
  have l: "logs s1 = logs s" by simp
  show ?thesis
  proof (cases "frame_checksum data \<noteq> data ! 4")
    case True
    with f assms l have "logs s' = logs s @ [Log_checksum (frame_checksum data) (data ! 4)]"
      "e = ESP_ERR_INVALID_CRC"
      by (auto simp: esp_log_def)
    then show ?thesis by simp
  next
    case False
    with f assms l
    have "logs s' = logs s @ [Log_reading (real (unat (data ! 2))) (real (unat (data ! 0)))]"
      "e = ESP_OK"
      by auto
    then show ?thesis by simp
  qed
qed

lemma dht11_read_calls:
  assumes "dht11_read line g (Some r) s = (e, rd', s')"
  shows "\<exists>xs. calls s' = calls s @ start_calls g @ xs
     \<and> set xs \<subseteq> {Gpio_get_level g, Ets_delay_us 1}"
proof -
  have "\<exists>s2. polling_only g (send_start g s) s2 \<and> calls s' = calls s2"
  proof (cases "receive_frame line g s")
    case (Inl x)
    obtain e1 s1 where x: "x = (e1, s1)" by (cases x)
    from receive_frame_Inl [OF Inl [unfolded x]] obtain m s2
      where m: "s1 = esp_log m s2" "polling_only g (send_start g s) s2"
      by blast
    from dht11_read_abort [OF Inl [unfolded x], of r] assms have "s' = s1" by simp
    with m show ?thesis by (auto simp: esp_log_def)
  next
    case (Inr y)
    obtain data s1 where y: "y = (data, s1)" by (cases y)
    from dht11_read_frame [OF Inr [unfolded y], of r] assms
    have "calls s' = calls s1" by (auto simp: esp_log_def split: if_splits)
    with receive_frame_Inr [OF Inr [unfolded y]] show ?thesis by blast
  qed
  then show ?thesis
    by (auto simp: polling_only_def send_start_calls)
qed

lemma dht11_read_outcome:
  assumes "dht11_read line g rd s = (e, rd', s')"
  shows "(e = ESP_OK \<and> (\<exists>r'. rd' = Some r' \<and> current_humidity s' = humidity r'
            \<and> current_temperature s' = temperature r'))
       \<or> (e \<noteq> ESP_OK \<and> current_humidity s' = current_humidity s
            \<and> current_temperature s' = current_temperature s)"
proof (cases rd)
  case None
  with assms show ?thesis by (simp add: dht11_read_def)
next
  case (Some r)
  show ?thesis
  proof (cases "receive_frame line g s")
    case (Inl x)
    obtain e1 s1 where x: "x = (e1, s1)" by (cases x)
    from receive_frame_Inl [OF Inl [unfolded x]] obtain m s2
      where "e1 = ESP_ERR_TIMEOUT" "s1 = esp_log m s2" "polling_only g (send_start g s) s2"
      by blast
    with polling_only_cache [of g s s2] assms Some dht11_read_abort [OF Inl [unfolded x], of r]
    show ?thesis by (auto simp: esp_log_def)
  next
    case (Inr y)
    obtain data s1 where y: "y = (data, s1)" by (cases y)
    from receive_frame_Inr [OF Inr [unfolded y]] polling_only_cache [of g s s1]
      assms Some dht11_read_frame [OF Inr [unfolded y], of r]
    show ?thesis by (auto simp: esp_log_def split: if_splits)
  qed
qed

lemma dht11_reads_cache:
  "dht11_reads cs s = (rs, s') \<Longrightarrow>
   current_humidity s' = (case last_success rs of None \<Rightarrow> current_humidity s | Some r \<Rightarrow> humidity r)
   \<and> current_temperature s' =
       (case last_success rs of None \<Rightarrow> current_temperature s | Some r \<Rightarrow> temperature r)"
proof (induction cs arbitrary: s rs s')
  case Nil
  then show ?case by auto
next
  case (Cons c cs)
  obtain line g rd where c: "c = (line, g, rd)" by (cases c)
  obtain e rd' s1 where d: "dht11_read line g rd s = (e, rd', s1)"
    by (cases "dht11_read line g rd s")
  obtain rs1 s2 where r: "dht11_reads cs s1 = (rs1, s2)" by (cases "dht11_reads cs s1")
  from Cons.prems c d r have rs: "rs = (e, rd') # rs1" and s': "s' = s2" by simp_all
  note ih = Cons.IH [OF r]
  show ?case
  proof (cases "last_success rs1")
    case (Some x)
    with ih rs s' show ?thesis by simp
  next
    case None
    with ih rs s' dht11_read_outcome [OF d] show ?thesis by auto
  qed
qed

section \<open>Bit packing\<close>

lemma bit_or_exp:
  "m < 8 \<Longrightarrow> bit ((a :: uint8_t) OR 2 ^ n) m \<longleftrightarrow> bit a m \<or> m = n"
  by (auto simp: bit_or_iff bit_exp_iff)

lemma store_bit_bit:
  assumes "i < 40" "j < 40" "length data = 5"
  shows "bit (store_bit i d data ! (j div 8)) (7 - j mod 8) \<longleftrightarrow>
           bit (data ! (j div 8)) (7 - j mod 8) \<or> (j = i \<and> d > 40)"
proof (cases "d > 40")
  case False
  then show ?thesis by (simp add: store_bit_def)
next
  case True
  from assms have k: "i div 8 < length data" by simp
  show ?thesis
  proof (cases "j div 8 = i div 8")
    case same: True
    have "7 - j mod 8 = 7 - i mod 8 \<longleftrightarrow> j = i"
    proof
      assume a: "7 - j mod 8 = 7 - i mod 8"
      have "j mod 8 < 8" "i mod 8 < 8" by simp_all
      with a have b: "j mod 8 = i mod 8" by linarith
      have "j = 8 * (j div 8) + j mod 8" by simp
      also have "\<dots> = 8 * (i div 8) + i mod 8" by (simp only: same b)
      also have "\<dots> = i" by simp
      finally show "j = i" .
    qed simp
    moreover have "7 - j mod 8 < 8" by simp
    ultimately show ?thesis using True same k
      by (simp add: store_bit_def Let_def bit_or_exp)
  next
    case False
    then have "j \<noteq> i" by auto
    with True False show ?thesis
      by (simp add: store_bit_def Let_def)
  qed
qed

lemma store_bits_length: "length (store_bits i ds data) = length data"
  by (induction ds arbitrary: i data) (simp_all add: store_bit_length)

lemma store_bits_bit:
  assumes "i + length ds \<le> 40" "j < 40" "length data = 5"
  shows "bit (store_bits i ds data ! (j div 8)) (7 - j mod 8) \<longleftrightarrow>
           bit (data ! (j div 8)) (7 - j mod 8)
           \<or> (i \<le> j \<and> j < i + length ds \<and> ds ! (j - i) > 40)"
  using assms
proof (induction ds arbitrary: i data)
  case Nil
  then show ?case by auto
next
  case (Cons d ds)
  from Cons.prems have i: "i < 40" and n: "Suc i + length ds \<le> 40" by simp_all
  have l: "length (store_bit i d data) = 5" using Cons.prems(3) by (simp add: store_bit_length)
  have "bit (store_bits i (d # ds) data ! (j div 8)) (7 - j mod 8) \<longleftrightarrow>
      bit (store_bit i d data ! (j div 8)) (7 - j mod 8)
      \<or> (Suc i \<le> j \<and> j < Suc i + length ds \<and> ds ! (j - Suc i) > 40)"
    using Cons.IH [OF n Cons.prems(2) l] by simp
  also have "\<dots> \<longleftrightarrow> (bit (data ! (j div 8)) (7 - j mod 8) \<or> (j = i \<and> d > 40))
      \<or> (Suc i \<le> j \<and> j < Suc i + length ds \<and> ds ! (j - Suc i) > 40)"
    using store_bit_bit [OF i Cons.prems(2,3)] by simp
  also have "\<dots> \<longleftrightarrow> bit (data ! (j div 8)) (7 - j mod 8)
      \<or> (i \<le> j \<and> j < i + length (d # ds) \<and> (d # ds) ! (j - i) > 40)"
  proof (cases "j = i")
    case True
    then show ?thesis by simp
  next
    case False
    then have "i \<le> j \<longleftrightarrow> Suc i \<le> j" by auto
    moreover have "(d # ds) ! (j - i) = ds ! (j - Suc i)" if "Suc i \<le> j"
      using that by (simp add: nth_Cons')
    ultimately show ?thesis using False by auto
  qed
  finally show ?case .
qed

lemma read_bits_step:
  assumes "i < 40" "wait_for_level line g 1 100 s0 = (ESP_OK, s1)"
    "measure_pulse line g 1 100 s1 = (d, s2)" "0 \<le> d"
  shows "read_bits line g i data s0 = read_bits line g (Suc i) (store_bit i d data) s2"
  using assms by (subst read_bits.simps) simp

lemma read_bits_start_timeout:
  assumes "i < 40" "wait_for_level line g 1 100 t = (r, t1)" "r \<noteq> ESP_OK"
  shows "read_bits line g i data t = Inl (ESP_ERR_TIMEOUT, esp_log (Log_bit_start i) t1)"
  using assms by (subst read_bits.simps) simp

lemma read_bits_pulse_timeout:
  assumes "i < 40" "wait_for_level line g 1 100 t = (ESP_OK, t1)"
    "measure_pulse line g 1 100 t1 = (d, t2)" "d < 0"
  shows "read_bits line g i data t = Inl (ESP_ERR_TIMEOUT, esp_log (Log_bit_pulse i) t2)"
  using assms by (subst read_bits.simps) simp

section \<open>A transaction on a well-formed signal\<close>

lemma carries_Nil: "carries line n []"
  by (simp add: carries_def)

lemma carries_Cons: "carries line n (x # w) \<longleftrightarrow> line n = x \<and> carries line (Suc n) w"
proof -
  have "(\<forall>k<Suc (length w). line (n + k) = (x # w) ! k) \<longleftrightarrow>
        line n = x \<and> (\<forall>k<length w. line (Suc n + k) = w ! k)"
    by (auto simp: less_Suc_eq_0_disj)
  then show ?thesis by (simp add: carries_def)
qed

lemma carries_append:
  "carries line n (u @ v) \<longleftrightarrow> carries line n u \<and> carries line (n + length u) v"
  by (induction u arbitrary: n) (simp_all add: carries_Nil carries_Cons)

lemma carries_replicate:
  "carries line n (replicate m x) \<longleftrightarrow> (\<forall>j<m. line (n + j) = x)"
  by (simp add: carries_def)

lemma carries_signal_of: "carries (signal_of w) 0 w"
  by (simp add: carries_def signal_of_def)

lemma wait_for_level_run:
  assumes "carries line (polls s) (replicate k other @ [level])" "other \<noteq> level" "k \<le> 101"
  shows "wait_for_level line g level 100 s =
     (ESP_OK, s\<lparr>polls := polls s + k + 1, calls := calls s @ poll_calls g k\<rparr>)"
proof (rule wait_for_level_hit)
  from assms(1) have a: "\<forall>j<k. line (polls s + j) = other" and b: "line (polls s + k) = level"
    by (simp_all add: carries_append carries_replicate carries_Cons)
  from a assms(2) show "\<forall>j<k. line (polls s + j) \<noteq> level" by simp
  from b show "line (polls s + k) = level" .
  from assms(3) show "int k \<le> 100 + 1" by simp
qed

lemma measure_pulse_run:
  assumes "carries line (polls s) (replicate k level @ [other])" "other \<noteq> level" "k \<le> 101"
  shows "measure_pulse line g level 100 s =
     (int k, s\<lparr>polls := polls s + k + 1, calls := calls s @ poll_calls g k\<rparr>)"
proof (rule measure_pulse_end)
  from assms(1) have a: "\<forall>j<k. line (polls s + j) = level" and b: "line (polls s + k) = other"
    by (simp_all add: carries_append carries_replicate carries_Cons)
  from a show "\<forall>j<k. line (polls s + j) = level" .
  from b assms(2) show "line (polls s + k) \<noteq> level" by simp
  from assms(3) show "int k \<le> 100 + 1" by simp
qed

lemma read_bits_wave:
  assumes "carries line (polls s) (concat (map bit_wave ps))"
    and "\<forall>p\<in>set ps. fst p \<le> 101 \<and> snd p \<le> 101"
    and "i + length ps = 40"
  shows "\<exists>s'. read_bits line g i data s = Inr (store_bits i (map (int \<circ> snd) ps) data, s')
     \<and> polls s' = polls s + length (concat (map bit_wave ps))"
  using assms
proof (induction ps arbitrary: i data s)
  case Nil
  then show ?case by (subst read_bits.simps) simp
next
  case (Cons p ps)
  obtain l d where p: "p = (l, d)" by (cases p)
  from Cons.prems(2) p have ld: "l \<le> 101" "d \<le> 101" by simp_all
  from Cons.prems(3) have i: "i < 40" by simp
  let ?rest = "concat (map bit_wave ps)"
  define s1 where "s1 = s\<lparr>polls := polls s + l + 1, calls := calls s @ poll_calls g l\<rparr>"
  define s2 where "s2 = s1\<lparr>polls := polls s1 + d + 1, calls := calls s1 @ poll_calls g d\<rparr>"
  have p1: "polls s1 = polls s + length (replicate l (0::int) @ [1])"
    by (simp add: s1_def)
  have p2: "polls s2 = polls s1 + length (replicate d (1::int) @ [0])"
    by (simp add: s2_def)
  have "concat (map bit_wave (p # ps)) = (replicate l 0 @ [1]) @ (replicate d 1 @ [0]) @ ?rest"
    by (simp add: p bit_wave_def [of "(l, d)"])
  with Cons.prems(1)
  have "carries line (polls s) ((replicate l 0 @ [1]) @ (replicate d 1 @ [0]) @ ?rest)"
    by simp
  then have c1: "carries line (polls s) (replicate l 0 @ [1])"
    and c2: "carries line (polls s1) (replicate d 1 @ [0])"
    and c3: "carries line (polls s2) ?rest"
    unfolding carries_append [of line _ "replicate l 0 @ [1]"]
      carries_append [of line _ "replicate d 1 @ [0]"] p1 p2
    by blast+
  have w: "wait_for_level line g 1 100 s = (ESP_OK, s1)"
    unfolding s1_def using c1 _ ld(1) by (rule wait_for_level_run) simp
  have m: "measure_pulse line g 1 100 s1 = (int d, s2)"
    unfolding s2_def using c2 _ ld(2) by (rule measure_pulse_run) simp
  from Cons.prems(2) have b: "\<forall>p\<in>set ps. fst p \<le> 101 \<and> snd p \<le> 101" by simp
  from Cons.prems(3) have n: "Suc i + length ps = 40" by simp
  from Cons.IH [OF c3 b n, of "store_bit i (int d) data"]
  obtain s' where s': "read_bits line g (Suc i) (store_bit i (int d) data) s2 =
      Inr (store_bits (Suc i) (map (int \<circ> snd) ps) (store_bit i (int d) data), s')"
    "polls s' = polls s2 + length ?rest"
    by blast
  have "read_bits line g i data s =
      Inr (store_bits i (map (int \<circ> snd) (p # ps)) data, s')"
    by (subst read_bits.simps) (simp add: i w m s'(1) p)
  moreover have "polls s' = polls s + length (concat (map bit_wave (p # ps)))"
    using s'(2) by (simp add: p bit_wave_def p1 p2)
  ultimately show ?case by blast
qed

lemma await_response_wave:
  assumes "carries line (polls s) (response_wave (h0, l1, h1))"
    and "h0 \<le> 101" "l1 \<le> 101" "h1 \<le> 101"
  shows "\<exists>s'. await_response line g s = Inr s'
     \<and> polls s' = polls s + length (response_wave (h0, l1, h1))"
proof -
  define s1 where "s1 = s\<lparr>polls := polls s + h0 + 1, calls := calls s @ poll_calls g h0\<rparr>"
  define s2 where "s2 = s1\<lparr>polls := polls s1 + l1 + 1, calls := calls s1 @ poll_calls g l1\<rparr>"
  define s3 where "s3 = s2\<lparr>polls := polls s2 + h1 + 1, calls := calls s2 @ poll_calls g h1\<rparr>"
  have p1: "polls s1 = polls s + length (replicate h0 (1::int) @ [0])"
    by (simp add: s1_def)
  have p2: "polls s2 = polls s1 + length (replicate l1 (0::int) @ [1])"
    by (simp add: s2_def)
  have p3: "polls s3 = polls s2 + length (replicate h1 (1::int) @ [0])"
    by (simp add: s3_def)
  have "response_wave (h0, l1, h1) =
      (replicate h0 1 @ [0]) @ (replicate l1 0 @ [1]) @ (replicate h1 1 @ [0])"
    by (simp add: response_wave_def)
  with assms(1)
  have "carries line (polls s)
      ((replicate h0 1 @ [0]) @ (replicate l1 0 @ [1]) @ (replicate h1 1 @ [0]))"
    by simp
  then have c1: "carries line (polls s) (replicate h0 1 @ [0])"
    and c2: "carries line (polls s1) (replicate l1 0 @ [1])"
    and c3: "carries line (polls s2) (replicate h1 1 @ [0])"
    unfolding carries_append [of line _ "replicate h0 1 @ [0]"]
      carries_append [of line _ "replicate l1 0 @ [1]"] p1 p2
    by blast+
  have w1: "wait_for_level line g 0 100 s = (ESP_OK, s1)"
    unfolding s1_def using c1 _ assms(2) by (rule wait_for_level_run) simp
  have w2: "wait_for_level line g 1 100 s1 = (ESP_OK, s2)"
    unfolding s2_def using c2 _ assms(3) by (rule wait_for_level_run) simp
  have w3: "wait_for_level line g 0 100 s2 = (ESP_OK, s3)"
    unfolding s3_def using c3 _ assms(4) by (rule wait_for_level_run) simp
  have "await_response line g s = Inr s3"
    by (simp add: await_response_def w1 w2 w3)
  moreover have "polls s3 = polls s + length (response_wave (h0, l1, h1))"
    by (simp add: response_wave_def p1 p2 p3)
  ultimately show ?thesis by blast
qed

lemma receive_frame_wave:
  assumes "carries line (polls s) (dht11_wave (h0, l1, h1) ps)"
    and "h0 \<le> 101" "l1 \<le> 101" "h1 \<le> 101"
    and "\<forall>p\<in>set ps. fst p \<le> 101 \<and> snd p \<le> 101"
    and "length ps = 40"
  shows "\<exists>s'. receive_frame line g s =
      Inr (store_bits 0 (map (int \<circ> snd) ps) [0, 0, 0, 0, 0], s')
     \<and> polls s' = polls s + length (dht11_wave (h0, l1, h1) ps)"
proof -
  from assms(1)
  have c1: "carries line (polls (send_start g s)) (response_wave (h0, l1, h1))"
    and c2: "carries line (polls s + length (response_wave (h0, l1, h1))) (concat (map bit_wave ps))"
    by (simp_all add: dht11_wave_def carries_append send_start_polls)
  from await_response_wave [OF c1 assms(2,3,4), of g]
  obtain s1 where s1: "await_response line g (send_start g s) = Inr s1"
    "polls s1 = polls s + length (response_wave (h0, l1, h1))"
    by (auto simp: send_start_polls)
  from c2 s1(2) have c3: "carries line (polls s1) (concat (map bit_wave ps))" by simp
  from assms(6) have n: "0 + length ps = 40" by simp
  from read_bits_wave [OF c3 assms(5) n, of g "[0, 0, 0, 0, 0]"]
  obtain s' where s': "read_bits line g 0 [0, 0, 0, 0, 0] s1 =
      Inr (store_bits 0 (map (int \<circ> snd) ps) [0, 0, 0, 0, 0], s')"
    "polls s' = polls s1 + length (concat (map bit_wave ps))"
    by blast
  have "receive_frame line g s = Inr (store_bits 0 (map (int \<circ> snd) ps) [0, 0, 0, 0, 0], s')"
    by (simp add: receive_frame_def s1(1) s'(1))
  moreover have "polls s' = polls s + length (dht11_wave (h0, l1, h1) ps)"
    using s'(2) s1(2) by (simp add: dht11_wave_def)
  ultimately show ?thesis by blast
qed

lemma byte_bits_nth: "n < 8 \<Longrightarrow> byte_bits b ! n = bit b (7 - n)"
proof -
  assume "n < 8"
  then consider "n = 0" | "n = 1" | "n = 2" | "n = 3" | "n = 4" | "n = 5" | "n = 6" | "n = 7"
    by linarith
  then show ?thesis by cases (simp_all add: byte_bits_def)
qed

lemma length_byte_bits: "length (byte_bits b) = 8"
  by (simp add: byte_bits_def)

lemma concat_bits_length: "length (concat (map byte_bits bytes)) = 8 * length bytes"
  by (induction bytes) (simp_all add: length_byte_bits)

lemma concat_bits_nth:
  "j < 8 * length bytes \<Longrightarrow>
   concat (map byte_bits bytes) ! j = bit (bytes ! (j div 8)) (7 - j mod 8)"
proof (induction bytes arbitrary: j)
  case Nil
  then show ?case by simp
next
  case (Cons b bytes)
  show ?case
  proof (cases "j < 8")
    case True
    then show ?thesis by (simp add: nth_append length_byte_bits byte_bits_nth)
  next
    case False
    then have j: "j - 8 < 8 * length bytes" using Cons.prems by simp
    from False have d: "j div 8 = Suc ((j - 8) div 8)" and m: "j mod 8 = (j - 8) mod 8"
      by (simp_all add: le_div_geq le_mod_geq)
    from False Cons.IH [OF j] show ?thesis
      by (simp add: nth_append length_byte_bits d m)
  qed
qed

lemma frame_pulses_length: "length (frame_pulses bytes) = 8 * length bytes"
  by (simp add: frame_pulses_def concat_bits_length)

lemma frame_pulses_bounds: "\<forall>p\<in>set (frame_pulses bytes). fst p \<le> 101 \<and> snd p \<le> 101"
  by (auto simp: frame_pulses_def)

lemma frame_pulses_nth:
  "j < 8 * length bytes \<Longrightarrow>
   int (snd (frame_pulses bytes ! j)) > 40 \<longleftrightarrow> bit (bytes ! (j div 8)) (7 - j mod 8)"
  by (simp add: frame_pulses_def concat_bits_length concat_bits_nth)

lemma store_bits_frame_pulses:
  assumes "length bytes = 5"
  shows "store_bits 0 (map (int \<circ> snd) (frame_pulses bytes)) [0, 0, 0, 0, 0] = bytes"
proof (rule nth_equalityI)
  let ?ds = "map (int \<circ> snd) (frame_pulses bytes)"
  let ?r = "store_bits 0 ?ds [0, 0, 0, 0, 0]"
  show "length ?r = length bytes" by (simp add: store_bits_length assms)
  fix k assume "k < length ?r"
  then have k: "k < 5" by (simp add: store_bits_length)
  show "?r ! k = bytes ! k"
  proof (rule bit_word_eqI)
    fix n assume "n < LENGTH(8)"
    then have n: "n < 8" by simp
    define m where "m = 7 - n"
    define j where "j = 8 * k + m"
    from n have m: "m < 8" "7 - m = n" by (simp_all add: m_def)
    from m(1) have "j mod 8 = m" "j div 8 = k" by (simp_all add: j_def)
    with k m have j: "j < 40" "j div 8 = k" "7 - j mod 8 = n" by (simp_all add: j_def)
    have len: "0 + length ?ds \<le> 40" by (simp add: frame_pulses_length assms)
    have z: "\<not> bit (([0, 0, 0, 0, 0] :: uint8_t list) ! k) n"
      using k by (simp add: nth_Cons' )
    from store_bits_bit [OF len j(1), of "[0, 0, 0, 0, 0]"] j z
    have "bit (?r ! k) n \<longleftrightarrow> ?ds ! j > 40"
      by (simp add: frame_pulses_length assms)
    also have "\<dots> \<longleftrightarrow> bit (bytes ! k) n"
      using frame_pulses_nth [of j bytes] j by (simp add: assms frame_pulses_length)
    finally show "bit (?r ! k) n \<longleftrightarrow> bit (bytes ! k) n" .
  qed
qed

lemma sensor_line_receive:
  assumes "length bytes = 5" "polls s = 0"
  shows "\<exists>s'. receive_frame (sensor_line bytes) g s = Inr (bytes, s')"
proof -
  have c: "carries (sensor_line bytes) (polls s) (dht11_wave (20, 80, 80) (frame_pulses bytes))"
    by (simp add: sensor_line_def assms(2) carries_signal_of)
  have n: "length (frame_pulses bytes) = 40" by (simp add: frame_pulses_length assms(1))
  from receive_frame_wave [OF c _ _ _ frame_pulses_bounds n, of g]
    store_bits_frame_pulses [OF assms(1)]
  show ?thesis by auto
qed

lemma dht11_read_no_response:
  assumes "\<forall>j\<le>101. line (polls s + j) \<noteq> 0"
  shows "dht11_read line g (Some r) s =
    (ESP_ERR_TIMEOUT, Some r,
     s\<lparr>polls := polls s + 102, calls := calls s @ start_calls g @ poll_calls g 101,
        logs := logs s @ [Log_response_low]\<rparr>)"
proof -
  have "\<forall>j\<le>nat 100 + 1. line (polls (send_start g s) + j) \<noteq> 0"
    using assms by (simp add: send_start_polls)
  from wait_for_level_miss [OF _ this, of g]
  have "wait_for_level line g 0 100 (send_start g s) =
      (ESP_ERR_TIMEOUT, (send_start g s)\<lparr>polls := polls s + 102,
         calls := calls (send_start g s) @ poll_calls g 101\<rparr>)"
    by (simp add: send_start_polls)
  then have "receive_frame line g s =
      Inl (ESP_ERR_TIMEOUT, esp_log Log_response_low ((send_start g s)\<lparr>polls := polls s + 102,
         calls := calls (send_start g s) @ poll_calls g 101\<rparr>))"
    by (simp add: receive_frame_def await_response_def)
  from dht11_read_abort [OF this, of r] show ?thesis
    by (simp add: send_start_calls esp_log_def)
qed

lemma dht11_read_no_response_high:
  assumes "line (polls s) = 0" "\<forall>j\<le>101. line (Suc (polls s) + j) \<noteq> 1"
  shows "dht11_read line g (Some r) s =
    (ESP_ERR_TIMEOUT, Some r,
     s\<lparr>polls := polls s + 103,
        calls := calls s @ start_calls g @ poll_calls g 0 @ poll_calls g 101,
        logs := logs s @ [Log_response_high]\<rparr>)"
proof -
  define s1 where "s1 = (send_start g s)\<lparr>polls := polls (send_start g s) + 0 + 1,
      calls := calls (send_start g s) @ poll_calls g 0\<rparr>"
  have p: "polls s1 = Suc (polls s)" by (simp add: s1_def send_start_polls)
  have w1: "wait_for_level line g 0 100 (send_start g s) = (ESP_OK, s1)"
    unfolding s1_def using assms(1) by (intro wait_for_level_hit) (simp_all add: send_start_polls)
  have "\<forall>j\<le>nat 100 + 1. line (polls s1 + j) \<noteq> 1"
    using assms(2) by (simp add: p)
  from wait_for_level_miss [OF _ this, of g]
  have w2: "wait_for_level line g 1 100 s1 =
      (ESP_ERR_TIMEOUT, s1\<lparr>polls := polls s1 + 102, calls := calls s1 @ poll_calls g 101\<rparr>)"
    by simp
  have "receive_frame line g s =
      Inl (ESP_ERR_TIMEOUT, esp_log Log_response_high
        (s1\<lparr>polls := polls s1 + 102, calls := calls s1 @ poll_calls g 101\<rparr>))"
    by (simp add: receive_frame_def await_response_def w1 w2)
  from dht11_read_abort [OF this, of r] show ?thesis
    by (simp add: s1_def send_start_calls esp_log_def)
qed

section \<open>The properties of the specification\<close>

subsection \<open>Decoding a valid frame\<close>

text \<open>
  C1: whenever the reception phase of a transaction delivers a frame (no wait timed out)
  whose fifth byte is the sum of the first four modulo 256, \<open>dht11_read\<close> returns
  \<open>ESP_OK\<close>, the destination holds temperature = byte 2 and humidity = byte 0 as whole
  numbers, and the cache read by the two accessors holds the same two values.
\<close>

theorem dht11_read_valid_frame:
  assumes "receive_frame line g s = Inr (data, s1)"
    and "unat (data ! 4) = (unat (data ! 0) + unat (data ! 1) + unat (data ! 2) + unat (data ! 3)) mod 256"
  shows "\<exists>s'. dht11_read line g (Some r) s =
      (ESP_OK, Some \<lparr>temperature = real (unat (data ! 2)), humidity = real (unat (data ! 0))\<rparr>, s')
    \<and> dht11_get_temperature s' = real (unat (data ! 2))
    \<and> dht11_get_humidity s' = real (unat (data ! 0))
    \<and> length data = 5"
proof -
  from assms(2) have "frame_checksum data = data ! 4" by (simp add: checksum_ok_iff)
  with dht11_read_frame [OF assms(1), of r] receive_frame_Inr [OF assms(1)]
  show ?thesis
    by (simp add: dht11_get_temperature_def dht11_get_humidity_def)
qed

theorem dht11_read_valid_frame_witness:
  "fst (dht11_read (sensor_line [0x32, 0, 0x18, 0, 0x4A]) 4
          (Some \<lparr>temperature = 0, humidity = 0\<rparr>) boot) = ESP_OK
   \<and> fst (snd (dht11_read (sensor_line [0x32, 0, 0x18, 0, 0x4A]) 4
          (Some \<lparr>temperature = 0, humidity = 0\<rparr>) boot)) = Some \<lparr>temperature = 24, humidity = 50\<rparr>
   \<and> dht11_get_temperature (snd (snd (dht11_read (sensor_line [0x32, 0, 0x18, 0, 0x4A]) 4
          (Some \<lparr>temperature = 0, humidity = 0\<rparr>) boot))) = 24
   \<and> dht11_get_humidity (snd (snd (dht11_read (sensor_line [0x32, 0, 0x18, 0, 0x4A]) 4
          (Some \<lparr>temperature = 0, humidity = 0\<rparr>) boot))) = 50"
proof -
  let ?f = "[0x32, 0, 0x18, 0, 0x4A] :: uint8_t list"
  have "length ?f = 5" "polls boot = 0" by (simp_all add: boot_def)
  from sensor_line_receive [OF this, of 4]
  obtain s1 where r: "receive_frame (sensor_line ?f) 4 boot = Inr (?f, s1)" by blast
  have c: "unat (?f ! 4) = (unat (?f ! 0) + unat (?f ! 1) + unat (?f ! 2) + unat (?f ! 3)) mod 256"
    by simp
  from dht11_read_valid_frame [OF r c, of "\<lparr>temperature = 0, humidity = 0\<rparr>"]
  show ?thesis by auto
qed

subsection \<open>Failures leave destination and cache alone\<close>

text \<open>
  C2: whatever the line does, a call of \<open>dht11_read\<close> that does not return \<open>ESP_OK\<close>
  (invalid argument, a timeout at any step, a checksum mismatch) leaves the destination
  as it was and the two cached values as they were; and a received frame whose fifth
  byte is not the sum of the first four modulo 256 gives \<open>ESP_ERR_INVALID_CRC\<close>, with
  destination and cache unchanged.
\<close>

theorem dht11_read_failure_untouched:
  "(\<forall>e rd' s'. dht11_read line g rd s = (e, rd', s') \<and> e \<noteq> ESP_OK \<longrightarrow>
       rd' = rd \<and> current_humidity s' = current_humidity s
       \<and> current_temperature s' = current_temperature s
       \<and> dht11_get_humidity s' = dht11_get_humidity s
       \<and> dht11_get_temperature s' = dht11_get_temperature s)
   \<and> (\<forall>data s1 r. receive_frame line g s = Inr (data, s1)
         \<and> unat (data ! 4) \<noteq> (unat (data ! 0) + unat (data ! 1) + unat (data ! 2) + unat (data ! 3)) mod 256 \<longrightarrow>
       (\<exists>s'. dht11_read line g (Some r) s = (ESP_ERR_INVALID_CRC, Some r, s')
          \<and> current_humidity s' = current_humidity s
          \<and> current_temperature s' = current_temperature s))"
proof (intro conjI allI impI)
  fix e rd' s'
  assume a: "dht11_read line g rd s = (e, rd', s') \<and> e \<noteq> ESP_OK"
  have "rd' = rd \<and> current_humidity s' = current_humidity s
       \<and> current_temperature s' = current_temperature s"
  proof (cases rd)
    case None
    with a show ?thesis by (simp add: dht11_read_def)
  next
    case (Some r)
    show ?thesis
    proof (cases "receive_frame line g s")
      case (Inl x)
      obtain e1 s1 where x: "x = (e1, s1)" by (cases x)
      from receive_frame_Inl [OF Inl [unfolded x]] obtain m s2
        where "s1 = esp_log m s2" "polling_only g (send_start g s) s2" by blast
      with polling_only_cache [of g s s2] a Some dht11_read_abort [OF Inl [unfolded x], of r]
      show ?thesis by (auto simp: esp_log_def)
    next
      case (Inr y)
      obtain data s1 where y: "y = (data, s1)" by (cases y)
      from receive_frame_Inr [OF Inr [unfolded y]] polling_only_cache [of g s s1]
        a Some dht11_read_frame [OF Inr [unfolded y], of r]
      show ?thesis by (auto simp: esp_log_def split: if_splits)
    qed
  qed
  then show "rd' = rd" "current_humidity s' = current_humidity s"
    "current_temperature s' = current_temperature s"
    "dht11_get_humidity s' = dht11_get_humidity s"
    "dht11_get_temperature s' = dht11_get_temperature s"
    by (simp_all add: dht11_get_humidity_def dht11_get_temperature_def)
next
  fix data s1 r
  assume a: "receive_frame line g s = Inr (data, s1)
         \<and> unat (data ! 4) \<noteq> (unat (data ! 0) + unat (data ! 1) + unat (data ! 2) + unat (data ! 3)) mod 256"
  then have r: "receive_frame line g s = Inr (data, s1)"
    and "frame_checksum data \<noteq> data ! 4"
    by (simp_all add: checksum_ok_iff)
  with dht11_read_frame [OF r, of r] receive_frame_Inr [OF r] polling_only_cache [of g s s1]
  show "\<exists>s'. dht11_read line g (Some r) s = (ESP_ERR_INVALID_CRC, Some r, s')
          \<and> current_humidity s' = current_humidity s
          \<and> current_temperature s' = current_temperature s"
    by (simp add: esp_log_def)
qed

theorem dht11_read_failure_untouched_witness:
  "fst (dht11_read (stuck_at 1) 4 (Some \<lparr>temperature = 21, humidity = 40\<rparr>) boot) = ESP_ERR_TIMEOUT
   \<and> fst (snd (dht11_read (stuck_at 1) 4 (Some \<lparr>temperature = 21, humidity = 40\<rparr>) boot))
       = Some \<lparr>temperature = 21, humidity = 40\<rparr>
   \<and> current_humidity (snd (snd (dht11_read (stuck_at 1) 4
         (Some \<lparr>temperature = 21, humidity = 40\<rparr>) boot))) = 0
   \<and> current_temperature (snd (snd (dht11_read (stuck_at 1) 4
         (Some \<lparr>temperature = 21, humidity = 40\<rparr>) boot))) = 0
   \<and> fst (dht11_read (sensor_line [0x32, 0, 0x18, 0, 0x4B]) 4
         (Some \<lparr>temperature = 21, humidity = 40\<rparr>) boot) = ESP_ERR_INVALID_CRC
   \<and> fst (snd (dht11_read (sensor_line [0x32, 0, 0x18, 0, 0x4B]) 4
         (Some \<lparr>temperature = 21, humidity = 40\<rparr>) boot))
       = Some \<lparr>temperature = 21, humidity = 40\<rparr>
   \<and> current_humidity (snd (snd (dht11_read (sensor_line [0x32, 0, 0x18, 0, 0x4B]) 4
         (Some \<lparr>temperature = 21, humidity = 40\<rparr>) boot))) = 0
   \<and> current_temperature (snd (snd (dht11_read (sensor_line [0x32, 0, 0x18, 0, 0x4B]) 4
         (Some \<lparr>temperature = 21, humidity = 40\<rparr>) boot))) = 0"
proof -
  let ?r = "\<lparr>temperature = 21, humidity = 40\<rparr>"
  let ?f = "[0x32, 0, 0x18, 0, 0x4B] :: uint8_t list"
  obtain e rd' s' where t: "dht11_read (stuck_at 1) 4 (Some ?r) boot = (e, rd', s')"
    by (cases "dht11_read (stuck_at 1) 4 (Some ?r) boot")
  have "\<forall>j\<le>101. stuck_at 1 (polls boot + j) \<noteq> 0" by (simp add: stuck_at_def)
  from dht11_read_no_response [OF this, of 4 ?r] t have e: "e = ESP_ERR_TIMEOUT" by simp
  then have "e \<noteq> ESP_OK" by simp
  with dht11_read_failure_untouched [of "stuck_at 1" 4 "Some ?r" boot] t
  have "rd' = Some ?r \<and> current_humidity s' = current_humidity boot
      \<and> current_temperature s' = current_temperature boot"
    by blast
  with e t have 1: "fst (dht11_read (stuck_at 1) 4 (Some ?r) boot) = ESP_ERR_TIMEOUT
      \<and> fst (snd (dht11_read (stuck_at 1) 4 (Some ?r) boot)) = Some ?r
      \<and> current_humidity (snd (snd (dht11_read (stuck_at 1) 4 (Some ?r) boot))) = 0
      \<and> current_temperature (snd (snd (dht11_read (stuck_at 1) 4 (Some ?r) boot))) = 0"
    by (simp add: boot_def)
  have "length ?f = 5" "polls boot = 0" by (simp_all add: boot_def)
  from sensor_line_receive [OF this, of 4]
  obtain s1 where r: "receive_frame (sensor_line ?f) 4 boot = Inr (?f, s1)" by blast
  have c: "unat (?f ! 4) \<noteq> (unat (?f ! 0) + unat (?f ! 1) + unat (?f ! 2) + unat (?f ! 3)) mod 256"
    by simp
  from dht11_read_failure_untouched [of "sensor_line ?f" 4 "Some ?r" boot] r c
  have "\<exists>s'. dht11_read (sensor_line ?f) 4 (Some ?r) boot = (ESP_ERR_INVALID_CRC, Some ?r, s')
          \<and> current_humidity s' = current_humidity boot
          \<and> current_temperature s' = current_temperature boot"
    by blast
  then have 2: "fst (dht11_read (sensor_line ?f) 4 (Some ?r) boot) = ESP_ERR_INVALID_CRC
      \<and> fst (snd (dht11_read (sensor_line ?f) 4 (Some ?r) boot)) = Some ?r
      \<and> current_humidity (snd (snd (dht11_read (sensor_line ?f) 4 (Some ?r) boot))) = 0
      \<and> current_temperature (snd (snd (dht11_read (sensor_line ?f) 4 (Some ?r) boot))) = 0"
    by (auto simp: boot_def)
  from 1 2 show ?thesis by blast
qed

subsection \<open>The bit threshold and the packing\<close>

text \<open>
  C3: in the bit loop, iteration \<open>i\<close> stores the duration \<open>d\<close> that \<open>measure_pulse\<close>
  returned by \<open>store_bit i d\<close>, which sets bit \<open>7 - i mod 8\<close> of byte \<open>i div 8\<close> exactly when
  \<open>d > 40\<close> and changes no other bit (so 40 leaves the bit 0 and 41 makes it 1). Over the
  whole loop: when the line carries 40 bit cells whose high phases are measured as
  \<open>snd (ps ! i)\<close> polls, the loop returns a frame of five bytes in which bit \<open>7 - i mod 8\<close>
  of byte \<open>i div 8\<close> is 1 exactly when the duration of cell \<open>i\<close> is greater than 40.
\<close>

theorem read_bits_decoding:
  "(\<forall>i data s0 s1 d s2.
       i < 40 \<and> wait_for_level line g 1 100 s0 = (ESP_OK, s1)
       \<and> measure_pulse line g 1 100 s1 = (d, s2) \<and> 0 \<le> d \<longrightarrow>
       read_bits line g i data s0 = read_bits line g (Suc i) (store_bit i d data) s2)
   \<and> (\<forall>i j d data. i < 40 \<and> j < 40 \<and> length data = 5 \<longrightarrow>
         (bit (store_bit i d data ! (j div 8)) (7 - j mod 8) \<longleftrightarrow>
            bit (data ! (j div 8)) (7 - j mod 8) \<or> (j = i \<and> 40 < d)))
   \<and> (carries line (polls s) (concat (map bit_wave ps))
        \<and> (\<forall>p\<in>set ps. fst p \<le> 101 \<and> snd p \<le> 101) \<and> length ps = 40 \<longrightarrow>
       (\<exists>data s'. read_bits line g 0 [0, 0, 0, 0, 0] s = Inr (data, s') \<and> length data = 5
          \<and> (\<forall>i<40. bit (data ! (i div 8)) (7 - i mod 8) \<longleftrightarrow> 40 < snd (ps ! i))))"
proof (intro conjI allI impI)
  fix i :: nat and data :: "uint8_t list" and s0 s1 s2 :: machine and d :: int
  assume "i < 40 \<and> wait_for_level line g 1 100 s0 = (ESP_OK, s1)
       \<and> measure_pulse line g 1 100 s1 = (d, s2) \<and> 0 \<le> d"
  then show "read_bits line g i data s0 = read_bits line g (Suc i) (store_bit i d data) s2"
    using read_bits_step by blast
next
  fix i j :: nat and d :: int and data :: "uint8_t list"
  assume "i < 40 \<and> j < 40 \<and> length data = 5"
  then show "bit (store_bit i d data ! (j div 8)) (7 - j mod 8) \<longleftrightarrow>
            bit (data ! (j div 8)) (7 - j mod 8) \<or> (j = i \<and> 40 < d)"
    using store_bit_bit by blast
next
  assume a: "carries line (polls s) (concat (map bit_wave ps))
        \<and> (\<forall>p\<in>set ps. fst p \<le> 101 \<and> snd p \<le> 101) \<and> length ps = 40"
  let ?ds = "map (int \<circ> snd) ps"
  let ?data = "store_bits 0 ?ds [0, 0, 0, 0, 0]"
  from a have c: "carries line (polls s) (concat (map bit_wave ps))"
    and b: "\<forall>p\<in>set ps. fst p \<le> 101 \<and> snd p \<le> 101" and n: "0 + length ps = 40"
    by simp_all
  from read_bits_wave [OF c b n, of g "[0, 0, 0, 0, 0]"]
  obtain s' where s': "read_bits line g 0 [0, 0, 0, 0, 0] s = Inr (?data, s')" by blast
  have l: "length ?data = 5" by (simp add: store_bits_length)
  have "bit (?data ! (i div 8)) (7 - i mod 8) \<longleftrightarrow> 40 < snd (ps ! i)" if i: "i < 40" for i
  proof -
    have len: "0 + length ?ds \<le> 40" using n by simp
    have "i div 8 < 5" using i by simp
    then have z: "\<not> bit (([0, 0, 0, 0, 0] :: uint8_t list) ! (i div 8)) (7 - i mod 8)"
      by (simp add: nth_Cons')
    from store_bits_bit [OF len i, of "[0, 0, 0, 0, 0]"] z i n
    show ?thesis by simp
  qed
  with s' l show "\<exists>data s'. read_bits line g 0 [0, 0, 0, 0, 0] s = Inr (data, s') \<and> length data = 5
          \<and> (\<forall>i<40. bit (data ! (i div 8)) (7 - i mod 8) \<longleftrightarrow> 40 < snd (ps ! i))"
    by blast
qed

theorem read_bits_decoding_witness:
  "snd (boundary_pulses ! 0) = 40 \<and> snd (boundary_pulses ! 2) = 41
   \<and> (\<exists>data s'. read_bits (signal_of (concat (map bit_wave boundary_pulses))) 4 0
          [0, 0, 0, 0, 0] boot = Inr (data, s')
        \<and> \<not> bit (data ! 0) 7 \<and> bit (data ! 0) 5)
   \<and> bit (store_bit 2 41 [0, 0, 0, 0, 0] ! 0) 5
   \<and> \<not> bit (store_bit 2 40 [0, 0, 0, 0, 0] ! 0) 5"
proof -
  let ?line = "signal_of (concat (map bit_wave boundary_pulses))"
  note t = read_bits_decoding [of ?line 4 boot boundary_pulses]
  have c: "carries ?line (polls boot) (concat (map bit_wave boundary_pulses))"
    by (simp add: boot_def carries_signal_of)
  have b: "\<forall>p\<in>set boundary_pulses. fst p \<le> 101 \<and> snd p \<le> 101"
    by (auto simp: boundary_pulses_def)
  have n: "length boundary_pulses = 40" by (simp add: boundary_pulses_def)
  have v: "snd (boundary_pulses ! 0) = 40" "snd (boundary_pulses ! 2) = 41"
    by (simp_all add: boundary_pulses_def)
  from t c b n obtain data s' where d: "read_bits ?line 4 0 [0, 0, 0, 0, 0] boot = Inr (data, s')"
    "\<forall>i<40. bit (data ! (i div 8)) (7 - i mod 8) \<longleftrightarrow> 40 < snd (boundary_pulses ! i)"
    by blast
  from d(2) [rule_format, of 0] d(2) [rule_format, of 2] v
  have "\<not> bit (data ! 0) 7" "bit (data ! 0) 5" by simp_all
  with d(1) have 1: "\<exists>data s'. read_bits ?line 4 0 [0, 0, 0, 0, 0] boot = Inr (data, s')
        \<and> \<not> bit (data ! 0) 7 \<and> bit (data ! 0) 5"
    by blast
  from t have "(2::nat) < 40 \<and> (2::nat) < 40 \<and> length ([0, 0, 0, 0, 0] :: uint8_t list) = 5 \<longrightarrow>
         (bit (store_bit 2 d [0, 0, 0, 0, 0] ! (2 div 8)) (7 - 2 mod 8) \<longleftrightarrow>
            bit (([0, 0, 0, 0, 0] :: uint8_t list) ! (2 div 8)) (7 - 2 mod 8) \<or> ((2::nat) = 2 \<and> 40 < d))"
    for d by blast
  from this [of 41] this [of 40]
  have 2: "bit (store_bit 2 41 [0, 0, 0, 0, 0] ! 0) 5" "\<not> bit (store_bit 2 40 [0, 0, 0, 0, 0] ! 0) 5"
    by simp_all
  from v 1 2 show ?thesis by blast
qed

subsection \<open>The budget of a wait\<close>

text \<open>
  C4, as the code has it. With a budget \<open>N\<close> from 0 to \<open>INT_MAX - 2\<close> (the range in which
  the counter of the C code cannot overflow), \<open>wait_for_level\<close> polls with a delay of one
  microsecond between two polls, and returns \<open>ESP_OK\<close> at the first poll that shows the
  target level when that poll is one of the first \<open>N + 2\<close> (its index \<open>k\<close> is at most
  \<open>N + 1\<close>; then it has polled \<open>k + 1\<close> times). It returns \<open>ESP_ERR_TIMEOUT\<close> exactly when
  the first \<open>N + 2\<close> polls all differ from the target, after exactly \<open>N + 2\<close> polls: so a line
  that never reaches the target makes it fail, it does not poll forever. In particular
  a target that appears at poll \<open>N - 1\<close> gives success; but so does one that appears
  after \<open>N + 1\<close> polls without a match. In every case the number of polls, and with it
  the counter, is at most \<open>N + 2\<close>, a value of a C \<^verbatim>\<open>int\<close>.
\<close>

theorem wait_for_level_boundary:
  assumes "0 \<le> timeout_us" and "timeout_us \<le> INT_MAX - 2"
  shows "(fst (wait_for_level line g level timeout_us s) = ESP_ERR_TIMEOUT \<longleftrightarrow>
            (\<forall>j\<le>nat timeout_us + 1. line (polls s + j) \<noteq> level))
       \<and> (fst (wait_for_level line g level timeout_us s) = ESP_OK \<longleftrightarrow>
            (\<exists>k\<le>nat timeout_us + 1. line (polls s + k) = level))
       \<and> (\<forall>k. (\<forall>j<k. line (polls s + j) \<noteq> level) \<and> line (polls s + k) = level
              \<and> int k \<le> timeout_us + 1 \<longrightarrow>
            wait_for_level line g level timeout_us s =
              (ESP_OK, s\<lparr>polls := polls s + k + 1, calls := calls s @ poll_calls g k\<rparr>))
       \<and> ((\<forall>j\<le>nat timeout_us + 1. line (polls s + j) \<noteq> level) \<longrightarrow>
            wait_for_level line g level timeout_us s =
              (ESP_ERR_TIMEOUT, s\<lparr>polls := polls s + nat timeout_us + 2,
                 calls := calls s @ poll_calls g (nat timeout_us + 1)\<rparr>))
       \<and> polls s < polls (snd (wait_for_level line g level timeout_us s))
       \<and> int (polls (snd (wait_for_level line g level timeout_us s)) - polls s) \<le> timeout_us + 2
       \<and> timeout_us + 2 \<le> INT_MAX"
proof -
  let ?miss = "\<forall>j\<le>nat timeout_us + 1. line (polls s + j) \<noteq> level"
  let ?w = "wait_for_level line g level timeout_us s"
  have miss: "?w = (ESP_ERR_TIMEOUT, s\<lparr>polls := polls s + nat timeout_us + 2,
                 calls := calls s @ poll_calls g (nat timeout_us + 1)\<rparr>)" if ?miss
    using wait_for_level_miss [OF assms(1) that] .
  have hit: "\<exists>k. int k \<le> timeout_us + 1 \<and>
      ?w = (ESP_OK, s\<lparr>polls := polls s + k + 1, calls := calls s @ poll_calls g k\<rparr>)"
    if "\<not> ?miss"
  proof -
    from that have "\<exists>k\<le>nat timeout_us + 1. line (polls s + k) = level" by blast
    then obtain k where k: "k \<le> nat timeout_us + 1" "line (polls s + k) = level"
      "\<forall>j<k. \<not> line (polls s + j) = level"
      by (rule first_hit)
    from k(1) assms(1) have b: "int k \<le> timeout_us + 1" by linarith
    with k have "?w = (ESP_OK, s\<lparr>polls := polls s + k + 1, calls := calls s @ poll_calls g k\<rparr>)"
      using wait_for_level_hit [of k line s level timeout_us g] by simp
    with b show ?thesis by blast
  qed
  have c1: "fst ?w = ESP_ERR_TIMEOUT \<longleftrightarrow> ?miss"
    using miss hit by (cases ?miss) auto
  have c2: "fst ?w = ESP_OK \<longleftrightarrow> (\<exists>k\<le>nat timeout_us + 1. line (polls s + k) = level)"
    using miss hit by (cases ?miss) auto
  have c3: "\<forall>k. (\<forall>j<k. line (polls s + j) \<noteq> level) \<and> line (polls s + k) = level
              \<and> int k \<le> timeout_us + 1 \<longrightarrow>
            ?w = (ESP_OK, s\<lparr>polls := polls s + k + 1, calls := calls s @ poll_calls g k\<rparr>)"
    using wait_for_level_hit by blast
  have c4: "?miss \<longrightarrow> ?w = (ESP_ERR_TIMEOUT, s\<lparr>polls := polls s + nat timeout_us + 2,
                 calls := calls s @ poll_calls g (nat timeout_us + 1)\<rparr>)"
    using miss by blast
  have c5: "polls s < polls (snd ?w) \<and> int (polls (snd ?w) - polls s) \<le> timeout_us + 2"
  proof (cases ?miss)
    case True
    from miss [OF True] assms(1) show ?thesis by simp
  next
    case False
    from hit [OF False] obtain k where "int k \<le> timeout_us + 1"
      "?w = (ESP_OK, s\<lparr>polls := polls s + k + 1, calls := calls s @ poll_calls g k\<rparr>)"
      by blast
    then show ?thesis by simp
  qed
  have c6: "timeout_us + 2 \<le> INT_MAX" using assms(2) by simp
  from c1 c2 c3 c4 c5 c6 show ?thesis by blast
qed

theorem wait_for_level_boundary_witness:
  "(0::int) \<le> 3 \<and> 3 \<le> INT_MAX - 2
   \<and> wait_for_level (signal_of [1, 1, 0]) 4 0 3 boot =
       (ESP_OK, boot\<lparr>polls := 3, calls := poll_calls 4 2\<rparr>)
   \<and> wait_for_level (stuck_at 1) 4 0 3 boot =
       (ESP_ERR_TIMEOUT, boot\<lparr>polls := 5, calls := poll_calls 4 4\<rparr>)"
proof -
  have h: "(0::int) \<le> 3" "3 \<le> INT_MAX - 2" by (simp_all add: INT_MAX_def)
  have a: "(\<forall>j<2. signal_of [1, 1, 0] (polls boot + j) \<noteq> 0)
      \<and> signal_of [1, 1, 0] (polls boot + 2) = 0 \<and> int 2 \<le> 3 + 1"
    by (simp add: signal_of_def boot_def nth_Cons')
  have b: "\<forall>j\<le>nat 3 + 1. stuck_at 1 (polls boot + j) \<noteq> 0"
    by (simp add: stuck_at_def)
  from wait_for_level_boundary [OF h, of "signal_of [1, 1, 0]" 4 0 boot] a
  have "wait_for_level (signal_of [1, 1, 0]) 4 0 3 boot =
       (ESP_OK, boot\<lparr>polls := polls boot + 2 + 1, calls := calls boot @ poll_calls 4 2\<rparr>)"
    by blast
  moreover from wait_for_level_boundary [OF h, of "stuck_at 1" 4 0 boot] b
  have "wait_for_level (stuck_at 1) 4 0 3 boot =
       (ESP_ERR_TIMEOUT, boot\<lparr>polls := polls boot + nat 3 + 2,
          calls := calls boot @ poll_calls 4 (nat 3 + 1)\<rparr>)"
    by blast
  ultimately show ?thesis using h
    by (simp add: boot_def)
qed

text \<open>
  C4 as stated fails: with budget 2 and three polls that do not match (more than the
  budget), the fourth poll matches and the result is success, not a timeout.
\<close>

theorem wait_for_level_counterexample:
  "signal_of [1, 1, 1, 0] 0 \<noteq> 0 \<and> signal_of [1, 1, 1, 0] 1 \<noteq> 0 \<and> signal_of [1, 1, 1, 0] 2 \<noteq> 0
   \<and> fst (wait_for_level (signal_of [1, 1, 1, 0]) 4 0 2 boot) = ESP_OK
   \<and> polls (snd (wait_for_level (signal_of [1, 1, 1, 0]) 4 0 2 boot)) = 4"
  by code_simp

subsection \<open>The budget of a measurement\<close>

text \<open>
  C5, as the code has it. With a budget \<open>N\<close> from 0 to \<open>INT_MAX - 2\<close> (the range in which
  the counter of the C code cannot overflow), \<open>measure_pulse\<close> polls with a delay of one
  microsecond between two polls; when the first \<open>k\<close> polls show the measured level and
  poll \<open>k\<close> does not, with \<open>k \<le> N + 1\<close>, it returns exactly \<open>k\<close> after \<open>k + 1\<close> polls (so it can
  return \<open>N + 1\<close>). It returns \<open>-1\<close> exactly when the first \<open>N + 2\<close> polls all show the
  measured level, after exactly \<open>N + 2\<close> polls. The result is \<open>-1\<close> or a count from 0 to
  \<open>N + 1\<close>, and the number of polls is at most \<open>N + 2\<close>: values of a C \<^verbatim>\<open>int\<close>.
\<close>

theorem measure_pulse_boundary:
  assumes "0 \<le> timeout_us" and "timeout_us \<le> INT_MAX - 2"
  shows "(fst (measure_pulse line g level timeout_us s) = - 1 \<longleftrightarrow>
            (\<forall>j\<le>nat timeout_us + 1. line (polls s + j) = level))
       \<and> (\<forall>k. (\<forall>j<k. line (polls s + j) = level) \<and> line (polls s + k) \<noteq> level
              \<and> int k \<le> timeout_us + 1 \<longrightarrow>
            measure_pulse line g level timeout_us s =
              (int k, s\<lparr>polls := polls s + k + 1, calls := calls s @ poll_calls g k\<rparr>))
       \<and> ((\<forall>j\<le>nat timeout_us + 1. line (polls s + j) = level) \<longrightarrow>
            measure_pulse line g level timeout_us s =
              (- 1, s\<lparr>polls := polls s + nat timeout_us + 2,
                 calls := calls s @ poll_calls g (nat timeout_us + 1)\<rparr>))
       \<and> - 1 \<le> fst (measure_pulse line g level timeout_us s)
       \<and> fst (measure_pulse line g level timeout_us s) \<le> timeout_us + 1
       \<and> polls s < polls (snd (measure_pulse line g level timeout_us s))
       \<and> int (polls (snd (measure_pulse line g level timeout_us s)) - polls s) \<le> timeout_us + 2
       \<and> timeout_us + 2 \<le> INT_MAX"
proof -
  let ?over = "\<forall>j\<le>nat timeout_us + 1. line (polls s + j) = level"
  let ?m = "measure_pulse line g level timeout_us s"
  have over: "?m = (- 1, s\<lparr>polls := polls s + nat timeout_us + 2,
                 calls := calls s @ poll_calls g (nat timeout_us + 1)\<rparr>)" if ?over
    using measure_pulse_over [OF assms(1) that] .
  have ended: "\<exists>k. int k \<le> timeout_us + 1 \<and>
      ?m = (int k, s\<lparr>polls := polls s + k + 1, calls := calls s @ poll_calls g k\<rparr>)"
    if "\<not> ?over"
  proof -
    from that have "\<exists>k\<le>nat timeout_us + 1. line (polls s + k) \<noteq> level" by blast
    then obtain k where k: "k \<le> nat timeout_us + 1" "line (polls s + k) \<noteq> level"
      "\<forall>j<k. \<not> line (polls s + j) \<noteq> level"
      by (rule first_hit)
    from k(1) assms(1) have b: "int k \<le> timeout_us + 1" by linarith
    with k have "?m = (int k, s\<lparr>polls := polls s + k + 1, calls := calls s @ poll_calls g k\<rparr>)"
      using measure_pulse_end [of k line s level timeout_us g] by simp
    with b show ?thesis by blast
  qed
  have c1: "fst ?m = - 1 \<longleftrightarrow> ?over"
  proof (cases ?over)
    case True
    with over show ?thesis by simp
  next
    case False
    from ended [OF False] obtain k where "fst ?m = int k" by auto
    with False show ?thesis by simp
  qed
  have c2: "\<forall>k. (\<forall>j<k. line (polls s + j) = level) \<and> line (polls s + k) \<noteq> level
              \<and> int k \<le> timeout_us + 1 \<longrightarrow>
            ?m = (int k, s\<lparr>polls := polls s + k + 1, calls := calls s @ poll_calls g k\<rparr>)"
    using measure_pulse_end by blast
  have c3: "?over \<longrightarrow> ?m = (- 1, s\<lparr>polls := polls s + nat timeout_us + 2,
                 calls := calls s @ poll_calls g (nat timeout_us + 1)\<rparr>)"
    using over by blast
  have c4: "- 1 \<le> fst ?m \<and> fst ?m \<le> timeout_us + 1
      \<and> polls s < polls (snd ?m) \<and> int (polls (snd ?m) - polls s) \<le> timeout_us + 2"
  proof (cases ?over)
    case True
    from over [OF True] assms(1) show ?thesis by simp
  next
    case False
    from ended [OF False] obtain k where "int k \<le> timeout_us + 1"
      "?m = (int k, s\<lparr>polls := polls s + k + 1, calls := calls s @ poll_calls g k\<rparr>)"
      by blast
    then show ?thesis by simp
  qed
  have c5: "timeout_us + 2 \<le> INT_MAX" using assms(2) by simp
  from c1 c2 c3 c4 c5 show ?thesis by blast
qed

theorem measure_pulse_boundary_witness:
  "(0::int) \<le> 3 \<and> 3 \<le> INT_MAX - 2
   \<and> measure_pulse (signal_of [1, 1, 0]) 4 1 3 boot =
       (2, boot\<lparr>polls := 3, calls := poll_calls 4 2\<rparr>)
   \<and> measure_pulse (stuck_at 1) 4 1 3 boot =
       (- 1, boot\<lparr>polls := 5, calls := poll_calls 4 4\<rparr>)"
proof -
  have h: "(0::int) \<le> 3" "3 \<le> INT_MAX - 2" by (simp_all add: INT_MAX_def)
  have a: "(\<forall>j<2. signal_of [1, 1, 0] (polls boot + j) = 1)
      \<and> signal_of [1, 1, 0] (polls boot + 2) \<noteq> 1 \<and> int 2 \<le> 3 + 1"
    by (simp add: signal_of_def boot_def nth_Cons')
  have b: "\<forall>j\<le>nat 3 + 1. stuck_at 1 (polls boot + j) = 1"
    by (simp add: stuck_at_def)
  from measure_pulse_boundary [OF h, of "signal_of [1, 1, 0]" 4 1 boot] a
  have "measure_pulse (signal_of [1, 1, 0]) 4 1 3 boot =
       (int 2, boot\<lparr>polls := polls boot + 2 + 1, calls := calls boot @ poll_calls 4 2\<rparr>)"
    by blast
  moreover from measure_pulse_boundary [OF h, of "stuck_at 1" 4 1 boot] b
  have "measure_pulse (stuck_at 1) 4 1 3 boot =
       (- 1, boot\<lparr>polls := polls boot + nat 3 + 2,
          calls := calls boot @ poll_calls 4 (nat 3 + 1)\<rparr>)"
    by blast
  ultimately show ?thesis using h
    by (simp add: boot_def)
qed

text \<open>
  C5 as stated fails: with budget 2 and a level held for three polls (a count above the
  budget) before it changes, the result is the count 3, not the sentinel.
\<close>

theorem measure_pulse_counterexample:
  "fst (measure_pulse (signal_of [1, 1, 1, 0]) 4 1 2 boot) = 3
   \<and> polls (snd (measure_pulse (signal_of [1, 1, 1, 0]) 4 1 2 boot)) = 4"
  by code_simp

subsection \<open>A null destination\<close>

text \<open>
  C6: for every line identifier and whatever the line does, \<open>dht11_read\<close> with a null
  destination returns the invalid-argument error and leaves the whole state as it was:
  no platform call (direction, level, poll, delay) has been made and nothing is logged.
\<close>

theorem dht11_read_null:
  "dht11_read line gpio_num None s = (ESP_ERR_INVALID_ARG, None, s)"
  by (simp add: dht11_read_def)

subsection \<open>The value of a timeout\<close>

text \<open>
  C7, as the code has it. Every timeout of \<open>dht11_read\<close> is returned as the one value
  \<open>ESP_ERR_TIMEOUT\<close>, whichever step timed out: the result is \<open>ESP_ERR_TIMEOUT\<close> exactly
  when the call appended one timeout line to the log. Which step timed out is told by
  that line only: \<open>Log_response_low\<close>, \<open>Log_response_high\<close> and \<open>Log_data_start\<close> for the
  three waits of the response, and in iteration \<open>i\<close> of the bit loop \<open>Log_bit_start i\<close> for
  the wait and \<open>Log_bit_pulse i\<close> for the measurement; a failure of the bit loop is the
  result of the call.
\<close>

theorem dht11_read_timeout_value:
  "(\<forall>e rd' s'. dht11_read line g rd s = (e, rd', s') \<longrightarrow>
      (e = ESP_ERR_TIMEOUT \<longleftrightarrow> (\<exists>m. logs s' = logs s @ [m] \<and> timeout_step m)))
   \<and> (\<forall>r1 s1. wait_for_level line g 0 100 (send_start g s) = (r1, s1) \<and> r1 \<noteq> ESP_OK \<longrightarrow>
        dht11_read line g (Some r) s = (ESP_ERR_TIMEOUT, Some r, esp_log Log_response_low s1))
   \<and> (\<forall>s1 r2 s2. wait_for_level line g 0 100 (send_start g s) = (ESP_OK, s1)
        \<and> wait_for_level line g 1 100 s1 = (r2, s2) \<and> r2 \<noteq> ESP_OK \<longrightarrow>
        dht11_read line g (Some r) s = (ESP_ERR_TIMEOUT, Some r, esp_log Log_response_high s2))
   \<and> (\<forall>s1 s2 r3 s3. wait_for_level line g 0 100 (send_start g s) = (ESP_OK, s1)
        \<and> wait_for_level line g 1 100 s1 = (ESP_OK, s2)
        \<and> wait_for_level line g 0 100 s2 = (r3, s3) \<and> r3 \<noteq> ESP_OK \<longrightarrow>
        dht11_read line g (Some r) s = (ESP_ERR_TIMEOUT, Some r, esp_log Log_data_start s3))
   \<and> (\<forall>i data t r1 t1. i < 40 \<and> wait_for_level line g 1 100 t = (r1, t1) \<and> r1 \<noteq> ESP_OK \<longrightarrow>
        read_bits line g i data t = Inl (ESP_ERR_TIMEOUT, esp_log (Log_bit_start i) t1))
   \<and> (\<forall>i data t t1 d t2. i < 40 \<and> wait_for_level line g 1 100 t = (ESP_OK, t1)
        \<and> measure_pulse line g 1 100 t1 = (d, t2) \<and> d < 0 \<longrightarrow>
        read_bits line g i data t = Inl (ESP_ERR_TIMEOUT, esp_log (Log_bit_pulse i) t2))
   \<and> (\<forall>s1 e t. await_response line g (send_start g s) = Inr s1
        \<and> read_bits line g 0 [0, 0, 0, 0, 0] s1 = Inl (e, t) \<longrightarrow>
        dht11_read line g (Some r) s = (e, Some r, t))"
proof (intro conjI allI impI)
  fix e rd' s'
  assume a: "dht11_read line g rd s = (e, rd', s')"
  show "e = ESP_ERR_TIMEOUT \<longleftrightarrow> (\<exists>m. logs s' = logs s @ [m] \<and> timeout_step m)"
  proof (cases rd)
    case None
    with a show ?thesis by (auto simp: dht11_read_def)
  next
    case (Some r)
    from dht11_read_log [OF a [unfolded Some]] show ?thesis by auto
  qed
next
  fix r1 s1
  assume "wait_for_level line g 0 100 (send_start g s) = (r1, s1) \<and> r1 \<noteq> ESP_OK"
  then have "receive_frame line g s = Inl (ESP_ERR_TIMEOUT, esp_log Log_response_low s1)"
    by (simp add: receive_frame_def await_response_def)
  then show "dht11_read line g (Some r) s = (ESP_ERR_TIMEOUT, Some r, esp_log Log_response_low s1)"
    by (rule dht11_read_abort)
next
  fix s1 r2 s2
  assume "wait_for_level line g 0 100 (send_start g s) = (ESP_OK, s1)
        \<and> wait_for_level line g 1 100 s1 = (r2, s2) \<and> r2 \<noteq> ESP_OK"
  then have "receive_frame line g s = Inl (ESP_ERR_TIMEOUT, esp_log Log_response_high s2)"
    by (simp add: receive_frame_def await_response_def)
  then show "dht11_read line g (Some r) s = (ESP_ERR_TIMEOUT, Some r, esp_log Log_response_high s2)"
    by (rule dht11_read_abort)
next
  fix s1 s2 r3 s3
  assume "wait_for_level line g 0 100 (send_start g s) = (ESP_OK, s1)
        \<and> wait_for_level line g 1 100 s1 = (ESP_OK, s2)
        \<and> wait_for_level line g 0 100 s2 = (r3, s3) \<and> r3 \<noteq> ESP_OK"
  then have "receive_frame line g s = Inl (ESP_ERR_TIMEOUT, esp_log Log_data_start s3)"
    by (simp add: receive_frame_def await_response_def)
  then show "dht11_read line g (Some r) s = (ESP_ERR_TIMEOUT, Some r, esp_log Log_data_start s3)"
    by (rule dht11_read_abort)
next
  fix i :: nat and data :: "uint8_t list" and t t1 :: machine and r1 :: esp_err_t
  assume "i < 40 \<and> wait_for_level line g 1 100 t = (r1, t1) \<and> r1 \<noteq> ESP_OK"
  then show "read_bits line g i data t = Inl (ESP_ERR_TIMEOUT, esp_log (Log_bit_start i) t1)"
    using read_bits_start_timeout by blast
next
  fix i :: nat and data :: "uint8_t list" and t t1 t2 :: machine and d :: int
  assume "i < 40 \<and> wait_for_level line g 1 100 t = (ESP_OK, t1)
        \<and> measure_pulse line g 1 100 t1 = (d, t2) \<and> d < 0"
  then show "read_bits line g i data t = Inl (ESP_ERR_TIMEOUT, esp_log (Log_bit_pulse i) t2)"
    using read_bits_pulse_timeout by blast
next
  fix s1 e t
  assume "await_response line g (send_start g s) = Inr s1
        \<and> read_bits line g 0 [0, 0, 0, 0, 0] s1 = Inl (e, t)"
  then have "receive_frame line g s = Inl (e, t)"
    by (simp add: receive_frame_def)
  then show "dht11_read line g (Some r) s = (e, Some r, t)"
    by (rule dht11_read_abort)
qed

theorem dht11_read_timeout_value_witness:
  "wait_for_level (stuck_at 1) 4 0 100 (send_start 4 boot) =
      (ESP_ERR_TIMEOUT, (send_start 4 boot)\<lparr>polls := 102,
         calls := calls (send_start 4 boot) @ poll_calls 4 101\<rparr>)
   \<and> dht11_read (stuck_at 1) 4 (Some \<lparr>temperature = 0, humidity = 0\<rparr>) boot =
      (ESP_ERR_TIMEOUT, Some \<lparr>temperature = 0, humidity = 0\<rparr>,
       esp_log Log_response_low ((send_start 4 boot)\<lparr>polls := 102,
         calls := calls (send_start 4 boot) @ poll_calls 4 101\<rparr>))
   \<and> (\<exists>m. logs (esp_log Log_response_low ((send_start 4 boot)\<lparr>polls := 102,
         calls := calls (send_start 4 boot) @ poll_calls 4 101\<rparr>)) = logs boot @ [m]
        \<and> timeout_step m)"
proof -
  let ?r = "\<lparr>temperature = 0, humidity = 0\<rparr>"
  let ?s1 = "(send_start 4 boot)\<lparr>polls := 102,
         calls := calls (send_start 4 boot) @ poll_calls 4 101\<rparr>"
  note t = dht11_read_timeout_value [of "stuck_at 1" 4 "Some ?r" boot ?r]
  have "\<forall>j\<le>nat 100 + 1. stuck_at 1 (polls (send_start 4 boot) + j) \<noteq> 0"
    by (simp add: stuck_at_def)
  from wait_for_level_miss [OF _ this, of 4]
  have w: "wait_for_level (stuck_at 1) 4 0 100 (send_start 4 boot) = (ESP_ERR_TIMEOUT, ?s1)"
    by (simp add: send_start_polls boot_def)
  from t [THEN conjunct2, THEN conjunct1, rule_format, of ESP_ERR_TIMEOUT ?s1] w
  have d: "dht11_read (stuck_at 1) 4 (Some ?r) boot =
      (ESP_ERR_TIMEOUT, Some ?r, esp_log Log_response_low ?s1)"
    by simp
  from t [THEN conjunct1, rule_format, OF d]
  have "\<exists>m. logs (esp_log Log_response_low ?s1) = logs boot @ [m] \<and> timeout_step m"
    by simp
  with w d show ?thesis by blast
qed

text \<open>
  C7 as stated fails: a line stuck high times out in the first wait of the response and
  a line stuck low in the second, and both calls return the same value; only the log
  lines differ.
\<close>

theorem dht11_read_timeout_counterexample:
  "fst (dht11_read (stuck_at 1) 4 (Some \<lparr>temperature = 0, humidity = 0\<rparr>) boot) = ESP_ERR_TIMEOUT
   \<and> logs (snd (snd (dht11_read (stuck_at 1) 4 (Some \<lparr>temperature = 0, humidity = 0\<rparr>) boot)))
       = [Log_response_low]
   \<and> fst (dht11_read (stuck_at 0) 4 (Some \<lparr>temperature = 0, humidity = 0\<rparr>) boot) = ESP_ERR_TIMEOUT
   \<and> logs (snd (snd (dht11_read (stuck_at 0) 4 (Some \<lparr>temperature = 0, humidity = 0\<rparr>) boot)))
       = [Log_response_high]"
proof -
  have "\<forall>j\<le>101. stuck_at 1 (polls boot + j) \<noteq> 0" by (simp add: stuck_at_def)
  note a = dht11_read_no_response [OF this, of 4 "\<lparr>temperature = 0, humidity = 0\<rparr>"]
  have "stuck_at 0 (polls boot) = 0" "\<forall>j\<le>101. stuck_at 0 (Suc (polls boot) + j) \<noteq> 1"
    by (simp_all add: stuck_at_def)
  note b = dht11_read_no_response_high [OF this, of 4 "\<lparr>temperature = 0, humidity = 0\<rparr>"]
  show ?thesis unfolding a b by (simp add: boot_def)
qed

subsection \<open>The start sequence\<close>

text \<open>
  C8: with a destination, every call of \<open>dht11_read\<close> first makes exactly these platform
  calls, in this order: direction open-drain output, level 1, delay 1000, level 0, delay
  20000, level 1, delay 40, direction input; every later call of the transaction is a poll
  of the line or a delay of one microsecond, so the line is never driven again. Then
  come three waits with budget 100, for level 0, 1 and 0; when one of them does not
  return \<open>ESP_OK\<close> the call returns \<open>ESP_ERR_TIMEOUT\<close> with no platform call after that
  wait, and when all three succeed the bit loop starts in the state the third wait left.
\<close>

theorem dht11_read_start_sequence:
  "(\<forall>e rd' s'. dht11_read line g (Some r) s = (e, rd', s') \<longrightarrow>
      (\<exists>xs. calls s' = calls s @
          [Gpio_set_direction g GPIO_MODE_OUTPUT_OD,
           Gpio_set_level g 1, Ets_delay_us 1000,
           Gpio_set_level g 0, Ets_delay_us 20000,
           Gpio_set_level g 1, Ets_delay_us 40,
           Gpio_set_direction g GPIO_MODE_INPUT] @ xs
        \<and> set xs \<subseteq> {Gpio_get_level g, Ets_delay_us 1}))
   \<and> (\<forall>r1 s1. wait_for_level line g 0 100 (send_start g s) = (r1, s1) \<and> r1 \<noteq> ESP_OK \<longrightarrow>
        fst (dht11_read line g (Some r) s) = ESP_ERR_TIMEOUT
        \<and> calls (snd (snd (dht11_read line g (Some r) s))) = calls s1)
   \<and> (\<forall>s1 r2 s2. wait_for_level line g 0 100 (send_start g s) = (ESP_OK, s1)
        \<and> wait_for_level line g 1 100 s1 = (r2, s2) \<and> r2 \<noteq> ESP_OK \<longrightarrow>
        fst (dht11_read line g (Some r) s) = ESP_ERR_TIMEOUT
        \<and> calls (snd (snd (dht11_read line g (Some r) s))) = calls s2)
   \<and> (\<forall>s1 s2 r3 s3. wait_for_level line g 0 100 (send_start g s) = (ESP_OK, s1)
        \<and> wait_for_level line g 1 100 s1 = (ESP_OK, s2)
        \<and> wait_for_level line g 0 100 s2 = (r3, s3) \<and> r3 \<noteq> ESP_OK \<longrightarrow>
        fst (dht11_read line g (Some r) s) = ESP_ERR_TIMEOUT
        \<and> calls (snd (snd (dht11_read line g (Some r) s))) = calls s3)
   \<and> (\<forall>s1 s2 s3. wait_for_level line g 0 100 (send_start g s) = (ESP_OK, s1)
        \<and> wait_for_level line g 1 100 s1 = (ESP_OK, s2)
        \<and> wait_for_level line g 0 100 s2 = (ESP_OK, s3) \<longrightarrow>
        receive_frame line g s = read_bits line g 0 [0, 0, 0, 0, 0] s3)"
proof (intro conjI allI impI)
  fix e rd' s'
  assume "dht11_read line g (Some r) s = (e, rd', s')"
  from dht11_read_calls [OF this]
  show "\<exists>xs. calls s' = calls s @
          [Gpio_set_direction g GPIO_MODE_OUTPUT_OD,
           Gpio_set_level g 1, Ets_delay_us 1000,
           Gpio_set_level g 0, Ets_delay_us 20000,
           Gpio_set_level g 1, Ets_delay_us 40,
           Gpio_set_direction g GPIO_MODE_INPUT] @ xs
        \<and> set xs \<subseteq> {Gpio_get_level g, Ets_delay_us 1}"
    by (simp add: start_calls_def)
next
  fix r1 s1
  assume "wait_for_level line g 0 100 (send_start g s) = (r1, s1) \<and> r1 \<noteq> ESP_OK"
  then have "receive_frame line g s = Inl (ESP_ERR_TIMEOUT, esp_log Log_response_low s1)"
    by (simp add: receive_frame_def await_response_def)
  from dht11_read_abort [OF this, of r]
  show "fst (dht11_read line g (Some r) s) = ESP_ERR_TIMEOUT"
    "calls (snd (snd (dht11_read line g (Some r) s))) = calls s1"
    by (simp_all add: esp_log_def)
next
  fix s1 r2 s2
  assume "wait_for_level line g 0 100 (send_start g s) = (ESP_OK, s1)
        \<and> wait_for_level line g 1 100 s1 = (r2, s2) \<and> r2 \<noteq> ESP_OK"
  then have "receive_frame line g s = Inl (ESP_ERR_TIMEOUT, esp_log Log_response_high s2)"
    by (simp add: receive_frame_def await_response_def)
  from dht11_read_abort [OF this, of r]
  show "fst (dht11_read line g (Some r) s) = ESP_ERR_TIMEOUT"
    "calls (snd (snd (dht11_read line g (Some r) s))) = calls s2"
    by (simp_all add: esp_log_def)
next
  fix s1 s2 r3 s3
  assume "wait_for_level line g 0 100 (send_start g s) = (ESP_OK, s1)
        \<and> wait_for_level line g 1 100 s1 = (ESP_OK, s2)
        \<and> wait_for_level line g 0 100 s2 = (r3, s3) \<and> r3 \<noteq> ESP_OK"
  then have "receive_frame line g s = Inl (ESP_ERR_TIMEOUT, esp_log Log_data_start s3)"
    by (simp add: receive_frame_def await_response_def)
  from dht11_read_abort [OF this, of r]
  show "fst (dht11_read line g (Some r) s) = ESP_ERR_TIMEOUT"
    "calls (snd (snd (dht11_read line g (Some r) s))) = calls s3"
    by (simp_all add: esp_log_def)
next
  fix s1 s2 s3
  assume "wait_for_level line g 0 100 (send_start g s) = (ESP_OK, s1)
        \<and> wait_for_level line g 1 100 s1 = (ESP_OK, s2)
        \<and> wait_for_level line g 0 100 s2 = (ESP_OK, s3)"
  then show "receive_frame line g s = read_bits line g 0 [0, 0, 0, 0, 0] s3"
    by (simp add: receive_frame_def await_response_def)
qed

theorem dht11_read_start_sequence_witness:
  "fst (dht11_read (stuck_at 1) 4 (Some \<lparr>temperature = 0, humidity = 0\<rparr>) boot) = ESP_ERR_TIMEOUT
   \<and> calls (snd (snd (dht11_read (stuck_at 1) 4 (Some \<lparr>temperature = 0, humidity = 0\<rparr>) boot)))
      = [Gpio_set_direction 4 GPIO_MODE_OUTPUT_OD,
         Gpio_set_level 4 1, Ets_delay_us 1000,
         Gpio_set_level 4 0, Ets_delay_us 20000,
         Gpio_set_level 4 1, Ets_delay_us 40,
         Gpio_set_direction 4 GPIO_MODE_INPUT] @ poll_calls 4 101
   \<and> (\<exists>xs. calls (snd (snd (dht11_read (stuck_at 1) 4 (Some \<lparr>temperature = 0, humidity = 0\<rparr>) boot)))
        = calls boot @
          [Gpio_set_direction 4 GPIO_MODE_OUTPUT_OD,
           Gpio_set_level 4 1, Ets_delay_us 1000,
           Gpio_set_level 4 0, Ets_delay_us 20000,
           Gpio_set_level 4 1, Ets_delay_us 40,
           Gpio_set_direction 4 GPIO_MODE_INPUT] @ xs
        \<and> set xs \<subseteq> {Gpio_get_level 4, Ets_delay_us 1})"
proof -
  let ?r = "\<lparr>temperature = 0, humidity = 0\<rparr>"
  let ?s1 = "(send_start 4 boot)\<lparr>polls := 102,
         calls := calls (send_start 4 boot) @ poll_calls 4 101\<rparr>"
  note t = dht11_read_start_sequence [of "stuck_at 1" 4 ?r boot]
  have "\<forall>j\<le>nat 100 + 1. stuck_at 1 (polls (send_start 4 boot) + j) \<noteq> 0"
    by (simp add: stuck_at_def)
  from wait_for_level_miss [OF _ this, of 4]
  have w: "wait_for_level (stuck_at 1) 4 0 100 (send_start 4 boot) = (ESP_ERR_TIMEOUT, ?s1)"
    by (simp add: send_start_polls boot_def)
  from t [THEN conjunct2, THEN conjunct1, rule_format, of ESP_ERR_TIMEOUT ?s1] w
  have 1: "fst (dht11_read (stuck_at 1) 4 (Some ?r) boot) = ESP_ERR_TIMEOUT"
    "calls (snd (snd (dht11_read (stuck_at 1) 4 (Some ?r) boot))) = calls ?s1"
    by simp_all
  have 2: "calls ?s1 = [Gpio_set_direction 4 GPIO_MODE_OUTPUT_OD,
         Gpio_set_level 4 1, Ets_delay_us 1000,
         Gpio_set_level 4 0, Ets_delay_us 20000,
         Gpio_set_level 4 1, Ets_delay_us 40,
         Gpio_set_direction 4 GPIO_MODE_INPUT] @ poll_calls 4 101"
    by (simp add: send_start_calls start_calls_def boot_def)
  obtain e rd' s' where d: "dht11_read (stuck_at 1) 4 (Some ?r) boot = (e, rd', s')"
    by (cases "dht11_read (stuck_at 1) 4 (Some ?r) boot")
  from t [THEN conjunct1, rule_format, OF d] d
  have 3: "\<exists>xs. calls (snd (snd (dht11_read (stuck_at 1) 4 (Some ?r) boot)))
        = calls boot @
          [Gpio_set_direction 4 GPIO_MODE_OUTPUT_OD,
           Gpio_set_level 4 1, Ets_delay_us 1000,
           Gpio_set_level 4 0, Ets_delay_us 20000,
           Gpio_set_level 4 1, Ets_delay_us 40,
           Gpio_set_direction 4 GPIO_MODE_INPUT] @ xs
        \<and> set xs \<subseteq> {Gpio_get_level 4, Ets_delay_us 1}"
    by simp
  from 1 2 3 show ?thesis by simp
qed

subsection \<open>The cache accessors\<close>

text \<open>
  C9: at program start both accessors return 0. After any sequence of calls of
  \<open>dht11_read\<close> from program start (each with its own line signal, line number and
  destination), the accessors return 0 when no call has succeeded, and otherwise the
  humidity and temperature that the most recent successful call wrote to its destination.
\<close>

theorem cache_accessors:
  "dht11_get_humidity boot = 0 \<and> dht11_get_temperature boot = 0
   \<and> (\<forall>rs s'. dht11_reads cs boot = (rs, s') \<longrightarrow>
        dht11_get_humidity s' = (case last_success rs of None \<Rightarrow> 0 | Some r \<Rightarrow> humidity r)
        \<and> dht11_get_temperature s' = (case last_success rs of None \<Rightarrow> 0 | Some r \<Rightarrow> temperature r))"
proof (intro conjI allI impI)
  show "dht11_get_humidity boot = 0" "dht11_get_temperature boot = 0"
    by (simp_all add: dht11_get_humidity_def dht11_get_temperature_def boot_def)
next
  fix rs s'
  assume a: "dht11_reads cs boot = (rs, s')"
  have "current_humidity boot = 0" "current_temperature boot = 0" by (simp_all add: boot_def)
  with dht11_reads_cache [OF a]
  show "dht11_get_humidity s' = (case last_success rs of None \<Rightarrow> 0 | Some r \<Rightarrow> humidity r)"
    "dht11_get_temperature s' = (case last_success rs of None \<Rightarrow> 0 | Some r \<Rightarrow> temperature r)"
    by (simp_all add: dht11_get_humidity_def dht11_get_temperature_def split: option.splits)
qed

theorem cache_accessors_witness:
  "fst (dht11_reads [(sensor_line [0x32, 0, 0x18, 0, 0x4A], 4, Some \<lparr>temperature = 0, humidity = 0\<rparr>),
         (stuck_at 1, 4, Some \<lparr>temperature = 0, humidity = 0\<rparr>)] boot)
     = [(ESP_OK, Some \<lparr>temperature = 24, humidity = 50\<rparr>),
        (ESP_ERR_TIMEOUT, Some \<lparr>temperature = 0, humidity = 0\<rparr>)]
   \<and> dht11_get_humidity (snd (dht11_reads
        [(sensor_line [0x32, 0, 0x18, 0, 0x4A], 4, Some \<lparr>temperature = 0, humidity = 0\<rparr>),
         (stuck_at 1, 4, Some \<lparr>temperature = 0, humidity = 0\<rparr>)] boot)) = 50
   \<and> dht11_get_temperature (snd (dht11_reads
        [(sensor_line [0x32, 0, 0x18, 0, 0x4A], 4, Some \<lparr>temperature = 0, humidity = 0\<rparr>),
         (stuck_at 1, 4, Some \<lparr>temperature = 0, humidity = 0\<rparr>)] boot)) = 24"
proof -
  let ?f = "[0x32, 0, 0x18, 0, 0x4A] :: uint8_t list"
  let ?r = "\<lparr>temperature = 0, humidity = 0\<rparr>"
  let ?cs = "[(sensor_line ?f, 4, Some ?r), (stuck_at 1, 4, Some ?r)]"
  have "length ?f = 5" "polls boot = 0" by (simp_all add: boot_def)
  from sensor_line_receive [OF this, of 4]
  obtain s1 where r: "receive_frame (sensor_line ?f) 4 boot = Inr (?f, s1)" by blast
  have "frame_checksum ?f = ?f ! 4" by (simp add: frame_checksum_sum)
  with dht11_read_frame [OF r, of ?r]
  obtain s2 where 1: "dht11_read (sensor_line ?f) 4 (Some ?r) boot =
      (ESP_OK, Some \<lparr>temperature = 24, humidity = 50\<rparr>, s2)"
    by simp
  have "\<forall>j\<le>101. stuck_at 1 (polls s2 + j) \<noteq> 0" by (simp add: stuck_at_def)
  from dht11_read_no_response [OF this, of 4 ?r]
  obtain s3 where 2: "dht11_read (stuck_at 1) 4 (Some ?r) s2 = (ESP_ERR_TIMEOUT, Some ?r, s3)"
    by simp
  have d: "dht11_reads ?cs boot =
      ([(ESP_OK, Some \<lparr>temperature = 24, humidity = 50\<rparr>), (ESP_ERR_TIMEOUT, Some ?r)], s3)"
    by (simp add: 1 2)
  from cache_accessors [of ?cs, THEN conjunct2, THEN conjunct2, rule_format, OF d] d
  show ?thesis by simp
qed

subsection \<open>The fraction bytes\<close>

text \<open>
  C10: bytes 1 and 3 of the frame only enter the checksum. For two received frames,
  both with a valid checksum, that agree on bytes 0 and 2, the two calls of \<open>dht11_read\<close>
  both return \<open>ESP_OK\<close> and leave the same destination and the same cached values,
  whatever bytes 1 and 3 are (they are not compared with zero and do not reach the
  output).
\<close>

theorem dht11_read_fraction_bytes:
  assumes "receive_frame line g s = Inr (data, s1)"
    and "receive_frame line' g' t = Inr (data', t1)"
    and "unat (data ! 4) = (unat (data ! 0) + unat (data ! 1) + unat (data ! 2) + unat (data ! 3)) mod 256"
    and "unat (data' ! 4) = (unat (data' ! 0) + unat (data' ! 1) + unat (data' ! 2) + unat (data' ! 3)) mod 256"
    and "data ! 0 = data' ! 0" "data ! 2 = data' ! 2"
  shows "fst (dht11_read line g (Some r) s) = ESP_OK
    \<and> fst (dht11_read line' g' (Some r') t) = ESP_OK
    \<and> fst (snd (dht11_read line g (Some r) s)) = fst (snd (dht11_read line' g' (Some r') t))
    \<and> dht11_get_humidity (snd (snd (dht11_read line g (Some r) s)))
        = dht11_get_humidity (snd (snd (dht11_read line' g' (Some r') t)))
    \<and> dht11_get_temperature (snd (snd (dht11_read line g (Some r) s)))
        = dht11_get_temperature (snd (snd (dht11_read line' g' (Some r') t)))"
proof -
  from assms(3) have a: "frame_checksum data = data ! 4" by (simp add: checksum_ok_iff)
  from assms(4) have b: "frame_checksum data' = data' ! 4" by (simp add: checksum_ok_iff)
  show ?thesis
    using dht11_read_frame [OF assms(1), of r] dht11_read_frame [OF assms(2), of r'] a b
      assms(5,6)
    by (simp add: dht11_get_humidity_def dht11_get_temperature_def)
qed

theorem dht11_read_fraction_bytes_witness:
  "fst (dht11_read (sensor_line [0x32, 0, 0x18, 0, 0x4A]) 4
          (Some \<lparr>temperature = 0, humidity = 0\<rparr>) boot) = ESP_OK
   \<and> fst (dht11_read (sensor_line [0x32, 5, 0x18, 3, 0x52]) 4
          (Some \<lparr>temperature = 1, humidity = 1\<rparr>) boot) = ESP_OK
   \<and> fst (snd (dht11_read (sensor_line [0x32, 0, 0x18, 0, 0x4A]) 4
          (Some \<lparr>temperature = 0, humidity = 0\<rparr>) boot))
      = fst (snd (dht11_read (sensor_line [0x32, 5, 0x18, 3, 0x52]) 4
          (Some \<lparr>temperature = 1, humidity = 1\<rparr>) boot))
   \<and> dht11_get_humidity (snd (snd (dht11_read (sensor_line [0x32, 0, 0x18, 0, 0x4A]) 4
          (Some \<lparr>temperature = 0, humidity = 0\<rparr>) boot)))
      = dht11_get_humidity (snd (snd (dht11_read (sensor_line [0x32, 5, 0x18, 3, 0x52]) 4
          (Some \<lparr>temperature = 1, humidity = 1\<rparr>) boot)))
   \<and> dht11_get_temperature (snd (snd (dht11_read (sensor_line [0x32, 0, 0x18, 0, 0x4A]) 4
          (Some \<lparr>temperature = 0, humidity = 0\<rparr>) boot)))
      = dht11_get_temperature (snd (snd (dht11_read (sensor_line [0x32, 5, 0x18, 3, 0x52]) 4
          (Some \<lparr>temperature = 1, humidity = 1\<rparr>) boot)))"
proof -
  let ?f = "[0x32, 0, 0x18, 0, 0x4A] :: uint8_t list"
  let ?f' = "[0x32, 5, 0x18, 3, 0x52] :: uint8_t list"
  have l: "length ?f = 5" "length ?f' = 5" and p: "polls boot = 0" by (simp_all add: boot_def)
  from sensor_line_receive [OF l(1) p, of 4]
  obtain s1 where r: "receive_frame (sensor_line ?f) 4 boot = Inr (?f, s1)" by blast
  from sensor_line_receive [OF l(2) p, of 4]
  obtain t1 where r': "receive_frame (sensor_line ?f') 4 boot = Inr (?f', t1)" by blast
  have c: "unat (?f ! 4) = (unat (?f ! 0) + unat (?f ! 1) + unat (?f ! 2) + unat (?f ! 3)) mod 256"
    and c': "unat (?f' ! 4) = (unat (?f' ! 0) + unat (?f' ! 1) + unat (?f' ! 2) + unat (?f' ! 3)) mod 256"
    and e: "?f ! 0 = ?f' ! 0" "?f ! 2 = ?f' ! 2"
    by simp_all
  from dht11_read_fraction_bytes [OF r r' c c' e] show ?thesis .
qed

end
